theory Spec2Isabelle
  imports Complex_Main "HOL-Library.Word" "HOL-Library.Log_Nat"
begin

section \<open>JavaScript strings\<close>

text \<open>
  A JavaScript string is a sequence of 16-bit code units, and \<open>str.length\<close> counts code
  units. String literals of the source that are plain ASCII are written through \<open>js\<close>.
\<close>

type_synonym jschar = "16 word"
type_synonym jsstring = "jschar list"

definition js :: "string \<Rightarrow> jsstring" where
  "js s = map (\<lambda>c. of_nat (of_char c)) s"

text \<open>\<open>String.prototype.repeat\<close>, for the non-negative counts every call of the source passes.\<close>

definition repeat :: "jsstring \<Rightarrow> nat \<Rightarrow> jsstring" where
  "repeat s n = concat (replicate n s)"

text \<open>The decimal rendering of a non-negative integer, as a template literal produces it.\<close>

definition digit :: "nat \<Rightarrow> jschar" where
  "digit d = of_nat (48 + d)"

fun show_nat :: "nat \<Rightarrow> jsstring" where
  "show_nat n =
     (if n < 10 then [digit n]
      else show_nat (n div 10) @ [digit (n mod 10)])"

declare show_nat.simps [simp del]

text \<open>\<open>str.split('\n')\<close> and its inverse \<open>lines.join('\n')\<close>.\<close>

fun split_on :: "jschar \<Rightarrow> jsstring \<Rightarrow> jsstring list" where
  "split_on c [] = [[]]"
| "split_on c (x # xs) =
     (if x = c then [] # split_on c xs
      else (case split_on c xs of l # ls \<Rightarrow> (x # l) # ls | [] \<Rightarrow> [[x]]))"

fun join_with :: "jschar \<Rightarrow> jsstring list \<Rightarrow> jsstring" where
  "join_with c [] = []"
| "join_with c [l] = l"
| "join_with c (l # ls) = l @ c # join_with c ls"

definition NEWLINE :: jschar where
  "NEWLINE = 0x0A"

section \<open>JavaScript values\<close>

text \<open>
  Numbers are the finite values (as rationals), the two infinities and NaN. Arrays and
  plain objects carry the identity of their reference: strict equality compares that
  identity and never the contents. An array is a list of slots, each holding an element
  or nothing (a hole, as in \<open>[ , 1]\<close>); its length counts the holes too. Objects are
  plain data records.
\<close>

datatype jsnum = Fin rat | PosInf | NegInf | NaN

datatype jsvalue =
    Undefined
  | Null
  | Bool bool
  | Num jsnum
  | Str jsstring
  | Arr nat "jsvalue option list"
  | Obj nat "(jsstring \<times> jsvalue) list"
  | Fun nat

datatype jstype = TUndefined | TObject | TBoolean | TNumber | TString | TFunction

text \<open>What a raise carries: a TypeError of the language, or the value a reporter throws.\<close>

datatype jserror = TypeError | Thrown jsvalue

fun typeof :: "jsvalue \<Rightarrow> jstype" where
  "typeof Undefined = TUndefined"
| "typeof Null = TObject"
| "typeof (Bool b) = TBoolean"
| "typeof (Num n) = TNumber"
| "typeof (Str s) = TString"
| "typeof (Arr p xs) = TObject"
| "typeof (Obj p fs) = TObject"
| "typeof (Fun p) = TFunction"

fun truthy :: "jsvalue \<Rightarrow> bool" where
  "truthy Undefined = False"
| "truthy Null = False"
| "truthy (Bool b) = b"
| "truthy (Num n) = (n \<noteq> NaN \<and> n \<noteq> Fin 0)"
| "truthy (Str s) = (s \<noteq> [])"
| "truthy _ = True"

fun nullish :: "jsvalue \<Rightarrow> bool" where
  "nullish Undefined = True"
| "nullish Null = True"
| "nullish _ = False"

text \<open>The operator \<open>a ?? b\<close>.\<close>

definition coalesce :: "jsvalue \<Rightarrow> jsvalue \<Rightarrow> jsvalue" where
  "coalesce a b = (if nullish a then b else a)"

text \<open>The operator \<open>===\<close>: NaN equals nothing, references are compared by identity.\<close>

fun num_eq :: "jsnum \<Rightarrow> jsnum \<Rightarrow> bool" where
  "num_eq NaN y = False"
| "num_eq x NaN = False"
| "num_eq x y = (x = y)"

fun strict_eq :: "jsvalue \<Rightarrow> jsvalue \<Rightarrow> bool" where
  "strict_eq Undefined Undefined = True"
| "strict_eq Null Null = True"
| "strict_eq (Bool a) (Bool b) = (a = b)"
| "strict_eq (Num a) (Num b) = num_eq a b"
| "strict_eq (Str a) (Str b) = (a = b)"
| "strict_eq (Arr p xs) (Arr q ys) = (p = q)"
| "strict_eq (Obj p fs) (Obj q gs) = (p = q)"
| "strict_eq (Fun p) (Fun q) = (p = q)"
| "strict_eq _ _ = False"

text \<open>
  Reading one of the properties \<open>passed\<close>, \<open>actual\<close>, \<open>expected\<close>, \<open>message\<close>. A plain
  object yields the field or \<open>undefined\<close>; arrays, functions and primitives have no such
  property; on \<open>null\<close> and \<open>undefined\<close> the read raises a TypeError.
\<close>

fun own_prop :: "jsvalue \<Rightarrow> jsstring \<Rightarrow> jsvalue" where
  "own_prop (Obj p fs) k = (case map_of fs k of Some v \<Rightarrow> v | None \<Rightarrow> Undefined)"
| "own_prop _ k = Undefined"

definition get_prop :: "jsvalue \<Rightarrow> jsstring \<Rightarrow> jserror + jsvalue" where
  "get_prop v k = (if nullish v then Inl TypeError else Inr (own_prop v k))"

fun isArray :: "jsvalue \<Rightarrow> bool" where
  "isArray (Arr p xs) = True"
| "isArray _ = False"

section \<open>Double arithmetic for the pass rate\<close>

text \<open>
  \<open>to_double\<close> rounds a rational to the nearest binary64 value, ties to even, in the
  normal range (53 significant bits), which covers every quotient of two array lengths
  and its product with 100. \<open>toFixed\<close> is \<open>Number.prototype.toFixed\<close> for values below
  \<open>10^21\<close>: the nearest multiple of \<open>10^-f\<close>, the larger one on a tie.
\<close>

definition floor_log2 :: "rat \<Rightarrow> int" where
  "floor_log2 q =
     (let (a, b) = quotient_of q;
          k = bitlen a - bitlen b
      in if 2 powi k \<le> q then k else k - 1)"

definition round_half_even :: "rat \<Rightarrow> int" where
  "round_half_even r =
     (let f = \<lfloor>r\<rfloor>; d = r - of_int f
      in if d < 1 / 2 then f
         else if 1 / 2 < d then f + 1
         else if even f then f else f + 1)"

definition to_double :: "rat \<Rightarrow> rat" where
  "to_double q =
     (if q = 0 then 0
      else let e = floor_log2 \<bar>q\<bar>; ulp = 2 powi (e - 52)
           in of_int (round_half_even (q / ulp)) * ulp)"

definition double_div :: "rat \<Rightarrow> rat \<Rightarrow> rat" where
  "double_div a b = to_double (a / b)"

definition double_mul :: "rat \<Rightarrow> rat \<Rightarrow> rat" where
  "double_mul a b = to_double (a * b)"

definition toFixed :: "rat \<Rightarrow> nat \<Rightarrow> jsstring" where
  "toFixed x0 f =
     (let s = (if x0 < 0 then js ''-'' else []);
          x = \<bar>x0\<bar>;
          n = nat \<lfloor>x * 10 ^ f + 1 / 2\<rfloor>;
          m = show_nat n;
          m = (if f \<noteq> 0 \<and> length m \<le> f
               then replicate (f + 1 - length m) (digit 0) @ m else m);
          k = length m
      in if f \<noteq> 0 then s @ take (k - f) m @ js ''.'' @ drop (k - f) m else s @ m)"

section \<open>The suite engine\<close>

definition SILENT :: int where "SILENT = 0"
definition QUIET :: int where "QUIET = 1"
definition NORMAL :: int where "NORMAL = 2"
definition VERBOSE :: int where "VERBOSE = 3"
definition DEBUG :: int where "DEBUG = 4"

lemmas VERBOSITY_LEVELS = SILENT_def QUIET_def NORMAL_def VERBOSE_def DEBUG_def

text \<open>The Result object built by \<open>test\<close>; \<open>passed\<close> holds whatever value the assertion gave.\<close>

record result =
  id_r :: jsstring
  description :: jsstring
  passed :: jsvalue
  actual :: jsvalue
  expected :: jsvalue
  message :: jsvalue

text \<open>The Stats object of \<open>summary\<close>; \<open>passRate\<close> is a string or the number 0.\<close>

record stats =
  total_n :: nat
  passed_n :: nat
  failed :: nat
  passRate :: jsvalue
  duration :: int

text \<open>A label argument: left out (\<open>undefined\<close>), \<open>null\<close>, or a string.\<close>

datatype jslabel = LUndefined | LNull | LStr jsstring

text \<open>
  The suite drives one reporter object, a built-in one or the caller's own. What the
  engine sees of it is whether a method call returns or raises (\<open>raises\<close>); the calls
  the engine has made are kept in call order (\<open>reporter\<close>).
\<close>

datatype rcall =
    Call_header jsstring
  | Call_section nat jsstring
  | Call_subsection nat nat jsstring
  | Call_code jsstring jsstring jslabel
  | Call_testPassed jsstring jsstring
  | Call_testFailed jsstring jsstring result
  | Call_summary stats
  | Call_failureDetails "result list"
  | Call_diff jsvalue jsvalue jslabel
  | Call_log "jsvalue list"
  | Call_info "jsvalue list"
  | Call_warn "jsvalue list"
  | Call_error "jsvalue list"
  | Call_success "jsvalue list"

record suite =
  name :: jsstring
  verbosity :: int
  testNumber :: nat
  sectionNumber :: nat
  failures :: "result list"
  successes :: "result list"
  startTime :: int
  reporter :: "rcall list"
  raises :: "rcall \<Rightarrow> jserror option"

text \<open>
  The constructor; \<open>rep\<close> is the behaviour of the reporter it is given or creates, and
  \<open>now\<close> is the value of \<open>Date.now()\<close>.
\<close>

definition TestSuite ::
  "jsstring \<Rightarrow> int option \<Rightarrow> (rcall \<Rightarrow> jserror option) \<Rightarrow> int \<Rightarrow> suite" where
  "TestSuite nm opt_verbosity rep now =
     \<lparr> name = nm,
       verbosity = (case opt_verbosity of Some v \<Rightarrow> v | None \<Rightarrow> VERBOSE),
       testNumber = 0,
       sectionNumber = 0,
       failures = [],
       successes = [],
       startTime = now,
       reporter = [],
       raises = rep \<rparr>"

text \<open>
  A method either returns (\<open>Inr\<close>) or raises, leaving the suite as it was at the raise
  (\<open>Inl\<close>). \<open>report\<close> records a call to the reporter; \<open>forward\<close> makes the call, which
  the reporter returns from or raises in.
\<close>

definition report :: "rcall \<Rightarrow> suite \<Rightarrow> suite" where
  "report c s = s\<lparr>reporter := reporter s @ [c]\<rparr>"

definition forward :: "rcall \<Rightarrow> suite \<Rightarrow> jserror \<times> suite + suite" where
  "forward c s =
     (case raises s c of
        Some e \<Rightarrow> Inl (e, report c s)
      | None \<Rightarrow> Inr (report c s))"

definition TestSuite_header :: "suite \<Rightarrow> jserror \<times> suite + suite" where
  "TestSuite_header s =
     (if verbosity s < NORMAL then Inr s else forward (Call_header (name s)) s)"

definition TestSuite_section :: "jsstring \<Rightarrow> suite \<Rightarrow> jserror \<times> suite + suite" where
  "TestSuite_section title s =
     (if verbosity s < NORMAL then Inr s
      else let s1 = s\<lparr>sectionNumber := sectionNumber s + 1\<rparr>;
               s2 = s1\<lparr>testNumber := 0\<rparr>
           in forward (Call_section (sectionNumber s2) title) s2)"

definition TestSuite_subsection :: "jsstring \<Rightarrow> suite \<Rightarrow> jserror \<times> suite + suite" where
  "TestSuite_subsection title s =
     (if verbosity s < NORMAL then Inr s
      else forward (Call_subsection (sectionNumber s) (testNumber s + 1) title) s)"

definition default_null :: "jslabel \<Rightarrow> jslabel" where
  "default_null l = (case l of LUndefined \<Rightarrow> LNull | _ \<Rightarrow> l)"

definition TestSuite_code ::
  "jsstring \<Rightarrow> jsstring \<Rightarrow> jslabel \<Rightarrow> suite \<Rightarrow> jserror \<times> suite + suite" where
  "TestSuite_code language content label s =
     (if verbosity s < VERBOSE then Inr s
      else forward (Call_code language content (default_null label)) s)"

definition TestSuite_javascript :: "jsstring \<Rightarrow> jslabel \<Rightarrow> suite \<Rightarrow> jserror \<times> suite + suite" where
  "TestSuite_javascript content label s =
     TestSuite_code (js ''javascript'') content (default_null label) s"

text \<open>
  What running the assertion callback gives: a returned value or a thrown value.
  \<open>settle\<close> is the \<open>try\<close>/\<open>catch\<close> of \<open>test\<close>; its only raise is the read of
  \<open>error.message\<close> in the handler.
\<close>

datatype outcome = Returns jsvalue | Throws jsvalue

definition settle :: "outcome \<Rightarrow> result \<Rightarrow> jserror + result" where
  "settle assertion r =
     (case assertion of
        Returns assertionResult \<Rightarrow>
          if typeof assertionResult = TBoolean then Inr (r\<lparr>passed := assertionResult\<rparr>)
          else if truthy assertionResult \<and> typeof assertionResult = TObject then
            Inr (r\<lparr>passed := coalesce (own_prop assertionResult (js ''passed'')) (Bool False),
                   actual := own_prop assertionResult (js ''actual''),
                   expected := own_prop assertionResult (js ''expected''),
                   message := own_prop assertionResult (js ''message'')\<rparr>)
          else Inr r
      | Throws error \<Rightarrow>
          (case get_prop error (js ''message'') of
             Inl e \<Rightarrow> Inl e
           | Inr m \<Rightarrow> Inr (r\<lparr>passed := Bool False, message := m\<rparr>)))"

text \<open>
  \<open>test\<close>: the counter advances first; a raise in the handler leaves before anything is
  stored; otherwise the Result is pushed and then, where the verbosity allows, the reporter
  is called, which may raise after the push.
\<close>

definition TestSuite_test :: "jsstring \<Rightarrow> outcome \<Rightarrow> suite \<Rightarrow> jserror \<times> suite + suite" where
  "TestSuite_test descr assertion s0 =
     (let s = s0\<lparr>testNumber := testNumber s0 + 1\<rparr>;
          testId = show_nat (sectionNumber s) @ js ''.'' @ show_nat (testNumber s);
          r0 = \<lparr> id_r = testId, description = descr, passed = Bool False,
                 actual = Null, expected = Null, message = Null \<rparr>
      in case settle assertion r0 of
           Inl e \<Rightarrow> Inl (e, s)
         | Inr r \<Rightarrow>
             if truthy (passed r) then
               (let s1 = s\<lparr>successes := successes s @ [r]\<rparr>
                in if VERBOSE \<le> verbosity s1
                   then forward (Call_testPassed testId descr) s1 else Inr s1)
             else
               (let s1 = s\<lparr>failures := failures s @ [r]\<rparr>
                in if QUIET \<le> verbosity s1
                   then forward (Call_testFailed testId descr r) s1 else Inr s1))"

text \<open>
  The object literals the two comparison helpers hand to \<open>test\<close>; the identity of the
  literal is never observed.
\<close>

definition TestSuite_assertEqual ::
  "jsvalue \<Rightarrow> jsvalue \<Rightarrow> jsstring \<Rightarrow> suite \<Rightarrow> jserror \<times> suite + suite" where
  "TestSuite_assertEqual actl expd descr s =
     TestSuite_test descr
       (Returns (Obj 0
          [(js ''passed'', Bool (strict_eq actl expd)),
           (js ''actual'', actl),
           (js ''expected'', expd),
           (js ''message'',
              if strict_eq actl expd then Null else Str (js ''Values do not match''))])) s"

text \<open>
  \<open>Array.isArray\<close> is \<open>isArray\<close> above. \<open>slots.every(f)\<close> calls \<open>f\<close> with each element
  and its index and passes over the holes; the indexed read \<open>b[index]\<close> gives
  \<open>undefined\<close> at a hole and out of range.
\<close>

fun every :: "(jsvalue \<Rightarrow> nat \<Rightarrow> bool) \<Rightarrow> jsvalue option list \<Rightarrow> nat \<Rightarrow> bool" where
  "every f [] i = True"
| "every f (None # xs) i = every f xs (Suc i)"
| "every f (Some x # xs) i = (f x i \<and> every f xs (Suc i))"

fun slots :: "jsvalue \<Rightarrow> jsvalue option list" where
  "slots (Arr p xs) = xs"
| "slots _ = []"

definition at_index :: "jsvalue \<Rightarrow> nat \<Rightarrow> jsvalue" where
  "at_index b i =
     (if i < length (slots b) then (case slots b ! i of Some v \<Rightarrow> v | None \<Rightarrow> Undefined)
      else Undefined)"

definition arraysEqual :: "jsvalue \<Rightarrow> jsvalue \<Rightarrow> bool" where
  "arraysEqual a b =
     (isArray a \<and> isArray b \<and>
      length (slots a) = length (slots b) \<and>
      every (\<lambda>element index. strict_eq element (at_index b index)) (slots a) 0)"

definition TestSuite_assertArraysEqual ::
  "jsvalue \<Rightarrow> jsvalue \<Rightarrow> jsstring \<Rightarrow> suite \<Rightarrow> jserror \<times> suite + suite" where
  "TestSuite_assertArraysEqual actl expd descr s =
     TestSuite_test descr
       (Returns (Obj 0
          [(js ''passed'', Bool (arraysEqual actl expd)),
           (js ''actual'', actl),
           (js ''expected'', expd),
           (js ''message'',
              if arraysEqual actl expd then Null else Str (js ''Arrays do not match''))])) s"

text \<open>
  \<open>summary\<close>, which raises nothing of its own: the boolean it returns and the suite it
  leaves, with the calls it makes to the reporter's \<open>summary\<close> and \<open>failureDetails\<close>,
  when both return; \<open>now\<close> is the value of \<open>Date.now()\<close>. What a reporter that raises
  makes of it is in \<open>perform\<close> below.
\<close>

definition TestSuite_summary :: "int \<Rightarrow> suite \<Rightarrow> bool \<times> suite" where
  "TestSuite_summary now s =
     (if verbosity s < NORMAL then (length (failures s) = 0, s)
      else
        let dur = now - startTime s;
            tot = length (successes s) + length (failures s);
            pas = length (successes s);
            fai = length (failures s);
            rate = (if 0 < tot
                    then Str (toFixed (double_mul (double_div (of_nat pas) (of_nat tot)) 100) 2)
                    else Num (Fin 0));
            st = \<lparr> total_n = tot, passed_n = pas, failed = fai, passRate = rate,
                   duration = dur \<rparr>;
            s1 = report (Call_summary st) s;
            s2 = (if VERBOSE \<le> verbosity s1 \<and> 0 < fai
                  then report (Call_failureDetails (failures s1)) s1 else s1)
        in (fai = 0, s2))"

text \<open>\<open>exit\<close> ends the process with the status it returns here.\<close>

definition TestSuite_exit :: "int \<Rightarrow> suite \<Rightarrow> nat \<times> suite" where
  "TestSuite_exit now s =
     (let (success, s1) = TestSuite_summary now s in (if success then 0 else 1, s1))"

definition TestSuite_diff ::
  "jsvalue \<Rightarrow> jsvalue \<Rightarrow> jslabel \<Rightarrow> suite \<Rightarrow> jserror \<times> suite + suite" where
  "TestSuite_diff expd actl label s =
     (if VERBOSE \<le> verbosity s then forward (Call_diff expd actl (default_null label)) s
      else Inr s)"

definition TestSuite_log :: "jsvalue list \<Rightarrow> suite \<Rightarrow> jserror \<times> suite + suite" where
  "TestSuite_log args s = (if VERBOSE \<le> verbosity s then forward (Call_log args) s else Inr s)"

definition TestSuite_info :: "jsvalue list \<Rightarrow> suite \<Rightarrow> jserror \<times> suite + suite" where
  "TestSuite_info args s = (if NORMAL \<le> verbosity s then forward (Call_info args) s else Inr s)"

definition TestSuite_warn :: "jsvalue list \<Rightarrow> suite \<Rightarrow> jserror \<times> suite + suite" where
  "TestSuite_warn args s = (if NORMAL \<le> verbosity s then forward (Call_warn args) s else Inr s)"

definition TestSuite_error :: "jsvalue list \<Rightarrow> suite \<Rightarrow> jserror \<times> suite + suite" where
  "TestSuite_error args s = (if QUIET \<le> verbosity s then forward (Call_error args) s else Inr s)"

definition TestSuite_success :: "jsvalue list \<Rightarrow> suite \<Rightarrow> jserror \<times> suite + suite" where
  "TestSuite_success args s =
     (if VERBOSE \<le> verbosity s then forward (Call_success args) s else Inr s)"

section \<open>The reporters\<close>

text \<open>\<open>_pad(str, length)\<close> of the base reporter, which the other two inherit.\<close>

definition SPACE :: jschar where
  "SPACE = 0x20"

definition Reporter_pad :: "jsstring \<Rightarrow> int \<Rightarrow> jsstring" where
  "Reporter_pad str len = str @ repeat [SPACE] (nat (max 0 (len - int (length str))))"

text \<open>
  \<open>_stringify(value)\<close>. The built-ins \<open>JSON.stringify(value, null, 2)\<close> and
  \<open>String(value)\<close> are parameters.
\<close>

definition stringify ::
  "(jsvalue \<Rightarrow> jsstring) \<Rightarrow> (jsvalue \<Rightarrow> jsstring) \<Rightarrow> jsvalue \<Rightarrow> jsstring" where
  "stringify JSON_stringify String value =
     (case value of
        Str s \<Rightarrow> s
      | _ \<Rightarrow> if typeof value = TObject \<and> value \<noteq> Null then JSON_stringify value
             else String value)"

text \<open>
  A parameter default applies to \<open>undefined\<close> only. In a concatenation a label is
  converted to a string; \<open>label.length\<close> raises on \<open>null\<close>.
\<close>

definition with_default :: "jsstring \<Rightarrow> jslabel \<Rightarrow> jslabel" where
  "with_default d l = (case l of LUndefined \<Rightarrow> LStr d | _ \<Rightarrow> l)"

fun label_string :: "jslabel \<Rightarrow> jsstring" where
  "label_string (LStr s) = s"
| "label_string LNull = js ''null''"
| "label_string LUndefined = js ''undefined''"

fun label_length :: "jslabel \<Rightarrow> jserror + nat" where
  "label_length (LStr s) = Inr (length s)"
| "label_length _ = Inl TypeError"

text \<open>The box-drawing code units and the ANSI sequences the reporters print.\<close>

definition BOX_DOWN_RIGHT :: jschar where "BOX_DOWN_RIGHT = 0x250C"
definition BOX_UP_RIGHT :: jschar where "BOX_UP_RIGHT = 0x2514"
definition BOX_HORIZONTAL :: jschar where "BOX_HORIZONTAL = 0x2500"

definition ESC :: jschar where "ESC = 0x1B"
definition RESET :: jsstring where "RESET = ESC # js ''[0m''"
definition BOLD :: jsstring where "BOLD = ESC # js ''[1m''"
definition RED :: jsstring where "RED = ESC # js ''[31m''"
definition GREEN :: jsstring where "GREEN = ESC # js ''[32m''"
definition YELLOW :: jsstring where "YELLOW = ESC # js ''[33m''"
definition CYAN :: jsstring where "CYAN = ESC # js ''[36m''"

text \<open>
  The three \<open>diff\<close> methods. Each returns the lines it hands to \<open>output\<close>, or the
  error it raises together with the lines written before.
\<close>

definition Reporter_diff ::
  "(jsvalue \<Rightarrow> jsstring) \<Rightarrow> (jsvalue \<Rightarrow> jsstring) \<Rightarrow> jsvalue \<Rightarrow> jsvalue \<Rightarrow> jslabel
   \<Rightarrow> jserror \<times> jsstring list + jsstring list" where
  "Reporter_diff JSON_stringify String expd actl label0 =
     (let label = with_default (js ''DIFFERENTIAL ANALYSIS'') label0;
          out1 = [[]]
      in case label_length label of
           Inl e \<Rightarrow> Inl (e, out1)
         | Inr n \<Rightarrow>
             let out3 = out1 @
                   [BOX_DOWN_RIGHT # BOX_HORIZONTAL # js ''[ '' @ label_string label @ js '' ]''
                      @ repeat [BOX_HORIZONTAL] (nat (max 0 (74 - int n))),
                    []];
                 expectedStr = stringify JSON_stringify String expd;
                 actualStr = stringify JSON_stringify String actl;
                 out4 =
                   (if expectedStr = actualStr then out3 @ [js ''  [NO VARIANCE DETECTED]'']
                    else out3 @ [js ''  EXPECTED STATE:'']
                      @ map (\<lambda>line. js ''  - '' @ line) (split_on NEWLINE expectedStr)
                      @ [[], js ''  ACTUAL STATE:'']
                      @ map (\<lambda>line. js ''  + '' @ line) (split_on NEWLINE actualStr))
             in Inr (out4 @ [[], BOX_UP_RIGHT # repeat [BOX_HORIZONTAL] 79, []]))"

definition TerminalReporter_diff ::
  "(jsvalue \<Rightarrow> jsstring) \<Rightarrow> (jsvalue \<Rightarrow> jsstring) \<Rightarrow> jsvalue \<Rightarrow> jsvalue \<Rightarrow> jslabel
   \<Rightarrow> jserror \<times> jsstring list + jsstring list" where
  "TerminalReporter_diff JSON_stringify String expd actl label0 =
     (let label = with_default (js ''DIFFERENTIAL ANALYSIS'') label0;
          out1 = [[]]
      in case label_length label of
           Inl e \<Rightarrow> Inl (e, out1)
         | Inr n \<Rightarrow>
             let out3 = out1 @
                   [YELLOW @ BOX_DOWN_RIGHT # BOX_HORIZONTAL # js ''[ '' @ BOLD
                      @ label_string label @ RESET @ YELLOW @ js '' ]''
                      @ repeat [BOX_HORIZONTAL] (nat (max 0 (74 - int n))) @ RESET,
                    []];
                 expectedStr = stringify JSON_stringify String expd;
                 actualStr = stringify JSON_stringify String actl;
                 out4 =
                   (if expectedStr = actualStr
                    then out3 @ [js ''  '' @ GREEN @ js ''[NO VARIANCE DETECTED]'' @ RESET]
                    else out3 @ [js ''  '' @ CYAN @ js ''EXPECTED STATE:'' @ RESET]
                      @ map (\<lambda>line. js ''  '' @ RED @ js ''- '' @ line @ RESET)
                          (split_on NEWLINE expectedStr)
                      @ [[], js ''  '' @ CYAN @ js ''ACTUAL STATE:'' @ RESET]
                      @ map (\<lambda>line. js ''  '' @ GREEN @ js ''+ '' @ line @ RESET)
                          (split_on NEWLINE actualStr))
             in Inr (out4 @
                  [[], YELLOW @ BOX_UP_RIGHT # repeat [BOX_HORIZONTAL] 79 @ RESET, []]))"

definition MarkdownReporter_diff ::
  "(jsvalue \<Rightarrow> jsstring) \<Rightarrow> (jsvalue \<Rightarrow> jsstring) \<Rightarrow> jsvalue \<Rightarrow> jsvalue \<Rightarrow> jslabel
   \<Rightarrow> jserror \<times> jsstring list + jsstring list" where
  "MarkdownReporter_diff JSON_stringify String expd actl label0 =
     (let label = with_default (js ''DIFFERENTIAL ANALYSIS'') label0;
          out3 = [[], js ''### '' @ label_string label, []];
          expectedStr = stringify JSON_stringify String expd;
          actualStr = stringify JSON_stringify String actl
      in Inr
           (if expectedStr = actualStr
            then out3 @ [js ''**[NO VARIANCE DETECTED]**'', []]
            else out3 @ [js ''**Expected State:**'', [], js ''```diff'']
              @ map (\<lambda>line. js ''- '' @ line) (split_on NEWLINE expectedStr)
              @ [js ''```'', [], js ''**Actual State:**'', [], js ''```diff'']
              @ map (\<lambda>line. js ''+ '' @ line) (split_on NEWLINE actualStr)
              @ [js ''```'', []]))"

text \<open>
  The three reporter classes, as \<open>createReporter(format, metadata)\<close> selects them, and
  what each prints for the no-variance marker and for one line of either rendering.
\<close>

datatype reporter_class = Reporter | TerminalReporter | MarkdownReporter

definition createReporter :: "jsstring \<Rightarrow> reporter_class" where
  "createReporter format =
     (if format = js ''markdown'' then MarkdownReporter
      else if format = js ''terminal'' then TerminalReporter
      else if format = js ''ascii'' then Reporter
      else TerminalReporter)"

fun diff ::
  "reporter_class \<Rightarrow> (jsvalue \<Rightarrow> jsstring) \<Rightarrow> (jsvalue \<Rightarrow> jsstring) \<Rightarrow> jsvalue \<Rightarrow> jsvalue
   \<Rightarrow> jslabel \<Rightarrow> jserror \<times> jsstring list + jsstring list" where
  "diff Reporter = Reporter_diff"
| "diff TerminalReporter = TerminalReporter_diff"
| "diff MarkdownReporter = MarkdownReporter_diff"

fun no_variance :: "reporter_class \<Rightarrow> jsstring" where
  "no_variance Reporter = js ''  [NO VARIANCE DETECTED]''"
| "no_variance TerminalReporter = js ''  '' @ GREEN @ js ''[NO VARIANCE DETECTED]'' @ RESET"
| "no_variance MarkdownReporter = js ''**[NO VARIANCE DETECTED]**''"

fun expected_line :: "reporter_class \<Rightarrow> jsstring \<Rightarrow> jsstring" where
  "expected_line Reporter line = js ''  - '' @ line"
| "expected_line TerminalReporter line = js ''  '' @ RED @ js ''- '' @ line @ RESET"
| "expected_line MarkdownReporter line = js ''- '' @ line"

fun actual_line :: "reporter_class \<Rightarrow> jsstring \<Rightarrow> jsstring" where
  "actual_line Reporter line = js ''  + '' @ line"
| "actual_line TerminalReporter line = js ''  '' @ GREEN @ js ''+ '' @ line @ RESET"
| "actual_line MarkdownReporter line = js ''+ '' @ line"

section \<open>Sequences of suite operations\<close>

text \<open>
  The chained calls a caller makes on one suite. A raising operation ends the chain, as
  the exception leaves it.
\<close>

datatype op =
    Op_header
  | Op_section jsstring
  | Op_subsection jsstring
  | Op_code jsstring jsstring jslabel
  | Op_javascript jsstring jslabel
  | Op_test jsstring outcome
  | Op_assertEqual jsvalue jsvalue jsstring
  | Op_assertArraysEqual jsvalue jsvalue jsstring
  | Op_summary int
  | Op_diff jsvalue jsvalue jslabel
  | Op_log "jsvalue list"
  | Op_info "jsvalue list"
  | Op_warn "jsvalue list"
  | Op_error "jsvalue list"
  | Op_success "jsvalue list"

text \<open>
  In a sequence, the calls \<open>summary\<close> makes are answered by the reporter one after the
  other, and the first that raises ends \<open>summary\<close> there.
\<close>

fun forward_all :: "rcall list \<Rightarrow> suite \<Rightarrow> jserror \<times> suite + suite" where
  "forward_all [] s = Inr s"
| "forward_all (c # cs) s =
     (case forward c s of Inl e \<Rightarrow> Inl e | Inr s1 \<Rightarrow> forward_all cs s1)"

fun perform :: "op \<Rightarrow> suite \<Rightarrow> jserror \<times> suite + suite" where
  "perform Op_header s = TestSuite_header s"
| "perform (Op_section title) s = TestSuite_section title s"
| "perform (Op_subsection title) s = TestSuite_subsection title s"
| "perform (Op_code language content label) s = TestSuite_code language content label s"
| "perform (Op_javascript content label) s = TestSuite_javascript content label s"
| "perform (Op_test descr assertion) s = TestSuite_test descr assertion s"
| "perform (Op_assertEqual a b descr) s = TestSuite_assertEqual a b descr s"
| "perform (Op_assertArraysEqual a b descr) s = TestSuite_assertArraysEqual a b descr s"
| "perform (Op_summary now) s =
     forward_all (drop (length (reporter s)) (reporter (snd (TestSuite_summary now s)))) s"
| "perform (Op_diff a b label) s = TestSuite_diff a b label s"
| "perform (Op_log args) s = TestSuite_log args s"
| "perform (Op_info args) s = TestSuite_info args s"
| "perform (Op_warn args) s = TestSuite_warn args s"
| "perform (Op_error args) s = TestSuite_error args s"
| "perform (Op_success args) s = TestSuite_success args s"

fun run :: "op list \<Rightarrow> suite \<Rightarrow> jserror \<times> suite + suite" where
  "run [] s = Inr s"
| "run (x # xs) s = (case perform x s of Inl e \<Rightarrow> Inl e | Inr s1 \<Rightarrow> run xs s1)"

section \<open>Notions the properties are stated with\<close>

text \<open>The suite a call leaves, whether it returned or raised, and the error if any.\<close>

definition the_suite :: "jserror \<times> suite + suite \<Rightarrow> suite" where
  "the_suite r = (case r of Inl (e, s) \<Rightarrow> s | Inr s \<Rightarrow> s)"

definition raised :: "jserror \<times> 'a + 'b \<Rightarrow> jserror option" where
  "raised r = (case r of Inl (e, s) \<Rightarrow> Some e | Inr s \<Rightarrow> None)"

text \<open>
  The id the next \<open>test\<close> call gives its Result; the Results one operation appended to
  the two accumulators; the Results of a chain of operations, which the first raise ends,
  in the order the operations ran.
\<close>

definition next_id :: "suite \<Rightarrow> jsstring" where
  "next_id s = show_nat (sectionNumber s) @ js ''.'' @ show_nat (testNumber s + 1)"

definition appended :: "suite \<Rightarrow> suite \<Rightarrow> result list" where
  "appended s s1 =
     drop (length (successes s)) (successes s1) @ drop (length (failures s)) (failures s1)"

fun results :: "op list \<Rightarrow> suite \<Rightarrow> result list" where
  "results [] s = []"
| "results (x # xs) s =
     (case perform x s of
        Inl (e, s1) \<Rightarrow> appended s s1
      | Inr s1 \<Rightarrow> appended s s1 @ results xs s1)"

fun is_test :: "op \<Rightarrow> bool" where
  "is_test (Op_test descr assertion) = True"
| "is_test (Op_assertEqual a b descr) = True"
| "is_test (Op_assertArraysEqual a b descr) = True"
| "is_test _ = False"

fun is_section :: "op \<Rightarrow> bool" where
  "is_section (Op_section title) = True"
| "is_section _ = False"

text \<open>
  The operations that store a Result: the test calls, but for a call of \<open>test\<close> whose
  assertion throws \<open>null\<close> or \<open>undefined\<close>.
\<close>

fun stores :: "op \<Rightarrow> bool" where
  "stores (Op_test descr (Throws e)) = (\<not> nullish e)"
| "stores (Op_test descr (Returns v)) = True"
| "stores (Op_assertEqual a b descr) = True"
| "stores (Op_assertArraysEqual a b descr) = True"
| "stores _ = False"

text \<open>
  A caller that catches what an operation raises goes on with the same suite: \<open>stored\<close>
  gives, for each operation of a list in turn, the Results it appended, whether it returned
  or raised.
\<close>

fun stored :: "op list \<Rightarrow> suite \<Rightarrow> result list list" where
  "stored [] s = []"
| "stored (x # xs) s =
     appended s (the_suite (perform x s)) # stored xs (the_suite (perform x s))"

text \<open>
  The counters and accumulators of a suite, and the suite after \<open>summary\<close> has been
  called once for each clock value of a list.
\<close>

definition observable :: "suite \<Rightarrow> nat \<times> nat \<times> result list \<times> result list" where
  "observable s = (sectionNumber s, testNumber s, successes s, failures s)"

definition summaries :: "int list \<Rightarrow> suite \<Rightarrow> suite" where
  "summaries nows s = fold (\<lambda>now t. snd (TestSuite_summary now t)) nows s"

text \<open>The lines a \<open>diff\<close> method wrote, whether it returned or raised.\<close>

definition written :: "jserror \<times> jsstring list + jsstring list \<Rightarrow> jsstring list" where
  "written r = (case r of Inl (e, out) \<Rightarrow> out | Inr out \<Rightarrow> out)"

text \<open>
  A reporter that never raises, and one that answers \<open>diff\<close> as the \<open>diff\<close> method of a
  built-in class does.
\<close>

definition returning :: "rcall \<Rightarrow> jserror option" where
  "returning c = None"

definition answering_diff ::
  "reporter_class \<Rightarrow> (jsvalue \<Rightarrow> jsstring) \<Rightarrow> (jsvalue \<Rightarrow> jsstring) \<Rightarrow> rcall \<Rightarrow> jserror option" where
  "answering_diff k JSON_stringify String c =
     (case c of
        Call_diff expd actl label \<Rightarrow> raised (diff k JSON_stringify String expd actl label)
      | _ \<Rightarrow> None)"

section \<open>Padding\<close>

lemma repeat_single: "repeat [c] n = replicate n c"
  by (induction n) (simp_all add: repeat_def)

lemma Reporter_pad_replicate:
  "Reporter_pad str len = str @ replicate (nat (len - int (length str))) SPACE"
  by (simp add: Reporter_pad_def repeat_single max_def)

lemma Reporter_pad_length:
  "int (length (Reporter_pad str len)) = max len (int (length str))"
  by (simp add: Reporter_pad_replicate)

text \<open>
  Claim C8. For every string \<open>text\<close> and every natural number \<open>targetWidth\<close>,
  \<open>pad(text, targetWidth)\<close> is \<open>text\<close> followed by spaces only, of length at least
  \<open>targetWidth\<close> (exactly the larger of the two lengths); when \<open>text\<close> already has
  \<open>targetWidth\<close> characters or more it comes back unchanged, never truncated.
  \<open>pad("abc", 10)\<close> is \<open>"abc"\<close> and seven spaces, \<open>pad("abcdefghij", 5)\<close> is
  \<open>"abcdefghij"\<close>.
\<close>

theorem pad_right_pads:
  fixes str :: jsstring and targetWidth :: nat
  shows "Reporter_pad str (int targetWidth) =
           str @ replicate (targetWidth - length str) SPACE
         \<and> targetWidth \<le> length (Reporter_pad str (int targetWidth))
         \<and> length (Reporter_pad str (int targetWidth)) = max targetWidth (length str)
         \<and> (targetWidth \<le> length str \<longrightarrow> Reporter_pad str (int targetWidth) = str)
         \<and> Reporter_pad (js ''abc'') 10 = js ''abc       ''
         \<and> Reporter_pad (js ''abcdefghij'') 5 = js ''abcdefghij''"
proof -
  have n: "nat (int targetWidth - int (length str)) = targetWidth - length str"
    by simp
  have shape: "Reporter_pad str (int targetWidth) =
      str @ replicate (targetWidth - length str) SPACE"
    by (simp only: Reporter_pad_replicate n)
  have len: "length (Reporter_pad str (int targetWidth)) = max targetWidth (length str)"
    by (simp add: shape)
  have ex1: "Reporter_pad (js ''abc'') 10 = js ''abc       ''"
    by (simp add: Reporter_pad_replicate js_def SPACE_def eval_nat_numeral)
  have ex2: "Reporter_pad (js ''abcdefghij'') 5 = js ''abcdefghij''"
    by (simp add: Reporter_pad_replicate js_def)
  show ?thesis
    using shape len ex1 ex2 by simp
qed

theorem pad_right_pads_witness:
  "(10::nat) \<le> length (js ''abcdefghij'')
   \<and> Reporter_pad (js ''abcdefghij'') (int 10) = js ''abcdefghij''
   \<and> Reporter_pad (js ''ab'') (int 4) = js ''ab  ''"
proof -
  have h: "(10::nat) \<le> length (js ''abcdefghij'')"
    by (simp add: js_def)
  have pad4: "Reporter_pad (js ''ab'') (int 4) = js ''ab  ''"
    using pad_right_pads [of "js ''ab''" 4]
    by (simp add: js_def SPACE_def eval_nat_numeral)
  show ?thesis
    using h pad_right_pads [of "js ''abcdefghij''" 10] pad4 by simp
qed

section \<open>What one test call does\<close>

lemma forward_cases:
  "the_suite (forward c s) = report c s" "raised (forward c s) = raises s c"
  by (simp_all add: forward_def the_suite_def raised_def split: option.splits)

lemma outcome_simps:
  "the_suite (Inl (e, s)) = s" "the_suite (Inr s) = s"
  "raised (Inl (e, t)) = Some e" "raised (Inr u) = None"
  by (simp_all add: the_suite_def raised_def)

lemma forward_returning: "raises s c = None \<Longrightarrow> forward c s = Inr (report c s)"
  by (simp add: forward_def)

lemma settle_id: "settle assertion r0 = Inr r \<Longrightarrow> id_r r = id_r r0 \<and> description r = description r0"
  by (auto simp: settle_def get_prop_def split: outcome.splits if_splits)

lemma settle_throws:
  "settle (Throws e) r0 =
     (if nullish e then Inl TypeError
      else Inr (r0\<lparr>passed := Bool False, message := own_prop e (js ''message'')\<rparr>))"
  by (simp add: settle_def get_prop_def)

lemma settle_literal:
  "settle (Returns (Obj p [(js ''passed'', Bool b), (js ''actual'', a), (js ''expected'', e),
       (js ''message'', m)])) r0
   = Inr (r0\<lparr>passed := Bool b, actual := a, expected := e, message := m\<rparr>)"
  by (simp add: settle_def coalesce_def js_def)

lemma test_raises:
  "settle assertion \<lparr> id_r = next_id s, description = descr, passed = Bool False,
       actual = Null, expected = Null, message = Null \<rparr> = Inl e \<Longrightarrow>
   TestSuite_test descr assertion s = Inl (e, s\<lparr>testNumber := testNumber s + 1\<rparr>)"
  by (simp add: TestSuite_test_def next_id_def Let_def)

text \<open>
  Once the handler has not raised, the Result is stored whatever the reporter then does,
  and the call raises exactly when the reporter is called and raises.
\<close>

lemma test_stores:
  assumes "settle assertion \<lparr> id_r = next_id s, description = descr, passed = Bool False,
       actual = Null, expected = Null, message = Null \<rparr> = Inr r"
  shows "\<exists>calls. the_suite (TestSuite_test descr assertion s) =
     (if truthy (passed r)
      then s\<lparr>testNumber := testNumber s + 1, successes := successes s @ [r],
             reporter := reporter s @ calls\<rparr>
      else s\<lparr>testNumber := testNumber s + 1, failures := failures s @ [r],
             reporter := reporter s @ calls\<rparr>)"
    and "raised (TestSuite_test descr assertion s) =
     (if truthy (passed r)
      then (if VERBOSE \<le> verbosity s then raises s (Call_testPassed (next_id s) descr) else None)
      else (if QUIET \<le> verbosity s then raises s (Call_testFailed (next_id s) descr r) else None))"
proof -
  show "\<exists>calls. the_suite (TestSuite_test descr assertion s) =
     (if truthy (passed r)
      then s\<lparr>testNumber := testNumber s + 1, successes := successes s @ [r],
             reporter := reporter s @ calls\<rparr>
      else s\<lparr>testNumber := testNumber s + 1, failures := failures s @ [r],
             reporter := reporter s @ calls\<rparr>)"
  proof (cases "truthy (passed r)")
    case True
    show ?thesis
    proof (cases "VERBOSE \<le> verbosity s")
      case v: True
      with True assms show ?thesis
        by (intro exI [of _ "[Call_testPassed (next_id s) descr]"])
          (simp add: TestSuite_test_def next_id_def Let_def forward_cases report_def)
    next
      case v: False
      with True assms show ?thesis
        by (intro exI [of _ "[]"])
          (simp add: TestSuite_test_def next_id_def Let_def the_suite_def)
    qed
  next
    case False
    show ?thesis
    proof (cases "QUIET \<le> verbosity s")
      case v: True
      with False assms show ?thesis
        by (intro exI [of _ "[Call_testFailed (next_id s) descr r]"])
          (simp add: TestSuite_test_def next_id_def Let_def forward_cases report_def)
    next
      case v: False
      with False assms show ?thesis
        by (intro exI [of _ "[]"])
          (simp add: TestSuite_test_def next_id_def Let_def the_suite_def)
    qed
  qed
  show "raised (TestSuite_test descr assertion s) =
     (if truthy (passed r)
      then (if VERBOSE \<le> verbosity s then raises s (Call_testPassed (next_id s) descr) else None)
      else (if QUIET \<le> verbosity s then raises s (Call_testFailed (next_id s) descr r) else None))"
    using assms
    by (simp add: TestSuite_test_def next_id_def Let_def forward_cases outcome_simps)
qed

lemma test_after:
  "\<exists>rs calls.
     (rs = [] \<or> (\<exists>r. rs = [r] \<and> id_r r = next_id s \<and> description r = descr))
     \<and> (raised (TestSuite_test descr assertion s) = None \<longrightarrow> rs \<noteq> [])
     \<and> the_suite (TestSuite_test descr assertion s) =
         s\<lparr>testNumber := testNumber s + 1,
           successes := successes s @ filter (\<lambda>r. truthy (passed r)) rs,
           failures := failures s @ filter (\<lambda>r. \<not> truthy (passed r)) rs,
           reporter := reporter s @ calls\<rparr>"
proof (cases "settle assertion \<lparr> id_r = next_id s, description = descr, passed = Bool False,
       actual = Null, expected = Null, message = Null \<rparr>")
  case (Inl e)
  from test_raises [OF Inl] show ?thesis
    by (intro exI [of _ "[]"]) (simp add: the_suite_def raised_def)
next
  case (Inr r)
  from test_stores(1) [OF Inr] obtain calls where
    eq: "the_suite (TestSuite_test descr assertion s) =
     (if truthy (passed r)
      then s\<lparr>testNumber := testNumber s + 1, successes := successes s @ [r],
             reporter := reporter s @ calls\<rparr>
      else s\<lparr>testNumber := testNumber s + 1, failures := failures s @ [r],
             reporter := reporter s @ calls\<rparr>)"
    by blast
  from settle_id [OF Inr] have ids: "id_r r = next_id s" "description r = descr"
    by simp_all
  show ?thesis
    by (intro exI [of _ "[r]"] exI [of _ calls]) (simp add: eq ids)
qed

lemma test_appended:
  "\<exists>rs.
     (rs = [] \<or> (\<exists>r. rs = [r] \<and> id_r r = next_id s \<and> description r = descr))
     \<and> (raised (TestSuite_test descr assertion s) = None \<longrightarrow> rs \<noteq> [])
     \<and> appended s (the_suite (TestSuite_test descr assertion s)) = rs
     \<and> successes (the_suite (TestSuite_test descr assertion s))
         = successes s @ filter (\<lambda>r. truthy (passed r)) rs
     \<and> failures (the_suite (TestSuite_test descr assertion s))
         = failures s @ filter (\<lambda>r. \<not> truthy (passed r)) rs
     \<and> testNumber (the_suite (TestSuite_test descr assertion s)) = testNumber s + 1
     \<and> sectionNumber (the_suite (TestSuite_test descr assertion s)) = sectionNumber s
     \<and> verbosity (the_suite (TestSuite_test descr assertion s)) = verbosity s
     \<and> raises (the_suite (TestSuite_test descr assertion s)) = raises s"
proof -
  from test_after [of s descr assertion] obtain rs calls where
    rs: "rs = [] \<or> (\<exists>r. rs = [r] \<and> id_r r = next_id s \<and> description r = descr)"
    and ret: "raised (TestSuite_test descr assertion s) = None \<longrightarrow> rs \<noteq> []"
    and eq: "the_suite (TestSuite_test descr assertion s) =
         s\<lparr>testNumber := testNumber s + 1,
           successes := successes s @ filter (\<lambda>r. truthy (passed r)) rs,
           failures := failures s @ filter (\<lambda>r. \<not> truthy (passed r)) rs,
           reporter := reporter s @ calls\<rparr>"
    by (elim exE conjE) (rule that)
  have app: "appended s (the_suite (TestSuite_test descr assertion s)) = rs"
    unfolding eq using rs by (elim disjE exE conjE) (simp_all add: appended_def)
  have fields: "successes (the_suite (TestSuite_test descr assertion s))
         = successes s @ filter (\<lambda>r. truthy (passed r)) rs"
    "failures (the_suite (TestSuite_test descr assertion s))
         = failures s @ filter (\<lambda>r. \<not> truthy (passed r)) rs"
    "testNumber (the_suite (TestSuite_test descr assertion s)) = testNumber s + 1"
    "sectionNumber (the_suite (TestSuite_test descr assertion s)) = sectionNumber s"
    "verbosity (the_suite (TestSuite_test descr assertion s)) = verbosity s"
    "raises (the_suite (TestSuite_test descr assertion s)) = raises s"
    unfolding eq by simp_all
  from rs ret app fields show ?thesis
    by (intro exI [of _ rs] conjI)
qed

section \<open>Accumulators and counters under every operation\<close>

lemma forward_fields:
  "successes (the_suite (forward c s)) = successes s"
  "failures (the_suite (forward c s)) = failures s"
  "sectionNumber (the_suite (forward c s)) = sectionNumber s"
  "testNumber (the_suite (forward c s)) = testNumber s"
  "verbosity (the_suite (forward c s)) = verbosity s"
  "raises (the_suite (forward c s)) = raises s"
  by (simp_all add: forward_cases report_def)

lemma forward_all_fields:
  "successes (the_suite (forward_all cs s)) = successes s
   \<and> failures (the_suite (forward_all cs s)) = failures s
   \<and> sectionNumber (the_suite (forward_all cs s)) = sectionNumber s
   \<and> testNumber (the_suite (forward_all cs s)) = testNumber s
   \<and> verbosity (the_suite (forward_all cs s)) = verbosity s
   \<and> raises (the_suite (forward_all cs s)) = raises s"
proof (induction cs arbitrary: s)
  case Nil
  show ?case by (simp add: outcome_simps)
next
  case (Cons c cs)
  show ?case
  proof (cases "forward c s")
    case (Inl p)
    then have "the_suite (forward_all (c # cs) s) = the_suite (forward c s)"
      by simp
    then show ?thesis by (simp add: forward_fields)
  next
    case (Inr s1)
    then have s1: "s1 = the_suite (forward c s)"
      by (simp add: outcome_simps)
    from Inr have "the_suite (forward_all (c # cs) s) = the_suite (forward_all cs s1)"
      by simp
    with Cons.IH [of s1] show ?thesis
      by (simp add: s1 forward_fields)
  qed
qed

text \<open>What an operation other than a test call and a section call leaves alone.\<close>

lemma other_fields:
  assumes "\<not> is_test x"
  shows "successes (the_suite (perform x s)) = successes s"
    and "failures (the_suite (perform x s)) = failures s"
    and "verbosity (the_suite (perform x s)) = verbosity s"
    and "raises (the_suite (perform x s)) = raises s"
    and "\<not> is_section x \<Longrightarrow> sectionNumber (the_suite (perform x s)) = sectionNumber s"
    and "\<not> is_section x \<Longrightarrow> testNumber (the_suite (perform x s)) = testNumber s"
  using assms
  by (cases x;
      simp add: TestSuite_header_def TestSuite_section_def TestSuite_subsection_def
        TestSuite_code_def TestSuite_javascript_def TestSuite_diff_def TestSuite_log_def
        TestSuite_info_def TestSuite_warn_def TestSuite_error_def TestSuite_success_def
        forward_fields forward_all_fields outcome_simps Let_def)+

lemma test_op:
  assumes "is_test x"
  obtains descr assertion where "perform x = TestSuite_test descr assertion"
  using assms
  by (cases x) (auto simp: TestSuite_assertEqual_def TestSuite_assertArraysEqual_def fun_eq_iff)

lemma perform_appended:
  "\<exists>rs.
     (rs = [] \<or> (\<exists>r. rs = [r] \<and> is_test x \<and> id_r r = next_id s))
     \<and> (is_test x \<and> raised (perform x s) = None \<longrightarrow> rs \<noteq> [])
     \<and> appended s (the_suite (perform x s)) = rs
     \<and> successes (the_suite (perform x s)) = successes s @ filter (\<lambda>r. truthy (passed r)) rs
     \<and> failures (the_suite (perform x s)) = failures s @ filter (\<lambda>r. \<not> truthy (passed r)) rs"
proof (cases "is_test x")
  case True
  then obtain descr assertion where p: "perform x = TestSuite_test descr assertion"
    by (rule test_op)
  from test_appended [of s descr assertion] obtain rs where
    "rs = [] \<or> (\<exists>r. rs = [r] \<and> id_r r = next_id s \<and> description r = descr)"
    "raised (TestSuite_test descr assertion s) = None \<longrightarrow> rs \<noteq> []"
    "appended s (the_suite (TestSuite_test descr assertion s)) = rs"
    "successes (the_suite (TestSuite_test descr assertion s))
         = successes s @ filter (\<lambda>r. truthy (passed r)) rs"
    "failures (the_suite (TestSuite_test descr assertion s))
         = failures s @ filter (\<lambda>r. \<not> truthy (passed r)) rs"
    by (elim exE conjE) (rule that)
  with True show ?thesis
    by (intro exI [of _ rs]) (auto simp: p)
next
  case False
  from other_fields(1,2) [OF False, of s] False show ?thesis
    by (intro exI [of _ "[]"]) (simp add: appended_def)
qed

lemma perform_counters:
  assumes "\<not> is_section x"
  shows "sectionNumber (the_suite (perform x s)) = sectionNumber s"
    and "testNumber (the_suite (perform x s)) = testNumber s + (if is_test x then 1 else 0)"
proof -
  have "sectionNumber (the_suite (perform x s)) = sectionNumber s
      \<and> testNumber (the_suite (perform x s)) = testNumber s + (if is_test x then 1 else 0)"
  proof (cases "is_test x")
    case True
    then obtain descr assertion where p: "perform x = TestSuite_test descr assertion"
      by (rule test_op)
    from test_appended [of s descr assertion] True show ?thesis
      by (auto simp: p)
  next
    case False
    from other_fields(5,6) [OF False assms, of s] False show ?thesis
      by simp
  qed
  then show "sectionNumber (the_suite (perform x s)) = sectionNumber s"
    and "testNumber (the_suite (perform x s)) = testNumber s + (if is_test x then 1 else 0)"
    by simp_all
qed

lemma run_results:
  "run xs s = Inr s1 \<Longrightarrow>
     length (results xs s) = length (filter is_test xs)
     \<and> successes s1 = successes s @ filter (\<lambda>r. truthy (passed r)) (results xs s)
     \<and> failures s1 = failures s @ filter (\<lambda>r. \<not> truthy (passed r)) (results xs s)"
proof (induction xs arbitrary: s)
  case Nil
  then show ?case by simp
next
  case (Cons x xs)
  from Cons.prems obtain s0 where p: "perform x s = Inr s0" and r: "run xs s0 = Inr s1"
    by (auto split: sum.splits)
  from p have s0: "the_suite (perform x s) = s0" and ret: "raised (perform x s) = None"
    by (simp_all add: outcome_simps)
  from perform_appended [of x s] obtain rs where
    rs: "rs = [] \<or> (\<exists>r. rs = [r] \<and> is_test x \<and> id_r r = next_id s)"
    and full: "is_test x \<and> raised (perform x s) = None \<longrightarrow> rs \<noteq> []"
    and app: "appended s s0 = rs"
    and suc: "successes s0 = successes s @ filter (\<lambda>r. truthy (passed r)) rs"
    and fai: "failures s0 = failures s @ filter (\<lambda>r. \<not> truthy (passed r)) rs"
    unfolding s0 by (elim exE conjE) (rule that)
  have len: "length rs = (if is_test x then 1 else 0)"
    using rs full ret by auto
  from Cons.IH [OF r] p app suc fai len show ?case
    by simp
qed

text \<open>
  The ids of the Results stored by the operations of a list that has no section call: the
  operation at index \<open>i\<close> stores a Result only if it is a test call, and its id counts the
  test calls up to and including it.
\<close>

lemma stored_ids:
  "\<forall>x \<in> set xs. \<not> is_section x \<Longrightarrow> i < length xs \<Longrightarrow> r \<in> set (stored xs s ! i) \<Longrightarrow>
     is_test (xs ! i)
     \<and> id_r r = show_nat (sectionNumber s) @ js ''.''
         @ show_nat (testNumber s + length (filter is_test (take (Suc i) xs)))"
proof (induction xs arbitrary: s i)
  case Nil
  then show ?case by simp
next
  case (Cons x xs)
  let ?s1 = "the_suite (perform x s)"
  from Cons.prems(1) have nx: "\<not> is_section x" and nxs: "\<forall>x \<in> set xs. \<not> is_section x"
    by simp_all
  note cnt = perform_counters [OF nx, of s]
  show ?case
  proof (cases i)
    case 0
    with Cons.prems(3) have mem: "r \<in> set (appended s ?s1)"
      by simp
    from perform_appended [of x s] obtain rs where
      rs: "rs = [] \<or> (\<exists>r. rs = [r] \<and> is_test x \<and> id_r r = next_id s)"
      and app: "appended s ?s1 = rs"
      by (elim exE conjE) (rule that)
    from mem rs app have "is_test x \<and> id_r r = next_id s"
      by auto
    with 0 show ?thesis
      by (simp add: next_id_def)
  next
    case (Suc j)
    with Cons.prems have j: "j < length xs" and mem: "r \<in> set (stored xs ?s1 ! j)"
      by simp_all
    from Cons.IH [OF nxs j mem]
    have t: "is_test (xs ! j)"
      and id: "id_r r = show_nat (sectionNumber ?s1) @ js ''.''
         @ show_nat (testNumber ?s1 + length (filter is_test (take (Suc j) xs)))"
      by simp_all
    have "testNumber ?s1 + length (filter is_test (take (Suc j) xs))
        = testNumber s + length (filter is_test (take (Suc i) (x # xs)))"
      using cnt(2) Suc by simp
    with id cnt(1) t Suc show ?thesis
      by simp
  qed
qed

section \<open>Summary\<close>

lemma summary_returns: "fst (TestSuite_summary now s) = (failures s = [])"
  by (simp add: TestSuite_summary_def Let_def)

lemma summary_state:
  "\<exists>calls. snd (TestSuite_summary now s) = s\<lparr>reporter := reporter s @ calls\<rparr>"
  by (auto simp: TestSuite_summary_def Let_def report_def intro: exI [of _ "[]"])

lemma summary_below_normal: "verbosity s < NORMAL \<Longrightarrow> TestSuite_summary now s = (failures s = [], s)"
  by (simp add: TestSuite_summary_def)

lemma summary_observable: "observable (snd (TestSuite_summary now s)) = observable s"
  using summary_state [of now s] by (auto simp: observable_def)

lemma summary_verbosity: "verbosity (snd (TestSuite_summary now s)) = verbosity s"
  using summary_state [of now s] by auto

lemma summary_raises: "raises (snd (TestSuite_summary now s)) = raises s"
  using summary_state [of now s] by auto

lemma summaries_observable: "observable (summaries nows s) = observable s"
  unfolding summaries_def
  by (induction nows arbitrary: s) (simp_all add: summary_observable)

lemma summaries_verbosity: "verbosity (summaries nows s) = verbosity s"
  unfolding summaries_def
  by (induction nows arbitrary: s) (simp_all add: summary_verbosity)

lemma summaries_raises: "raises (summaries nows s) = raises s"
  unfolding summaries_def
  by (induction nows arbitrary: s) (simp_all add: summary_raises)

text \<open>In a sequence, \<open>summary\<close> leaves the suite above when none of its reporter calls raises.\<close>

lemma forward_all_returning:
  "\<forall>c \<in> set cs. raises s c = None \<Longrightarrow>
     forward_all cs s = Inr (s\<lparr>reporter := reporter s @ cs\<rparr>)"
proof (induction cs arbitrary: s)
  case Nil
  show ?case by simp
next
  case (Cons c cs)
  from Cons.prems have c: "raises s c = None"
    and cs: "\<forall>d \<in> set cs. raises (report c s) d = None"
    by (simp_all add: report_def)
  from Cons.IH [OF cs] c show ?case
    by (simp add: forward_def report_def)
qed

lemma summary_performed:
  assumes "\<forall>c. raises s c = None"
  shows "perform (Op_summary now) s = Inr (snd (TestSuite_summary now s))"
proof -
  from summary_state [of now s] obtain calls where
    eq: "snd (TestSuite_summary now s) = s\<lparr>reporter := reporter s @ calls\<rparr>"
    by blast
  from assms have "forward_all calls s = Inr (s\<lparr>reporter := reporter s @ calls\<rparr>)"
    by (intro forward_all_returning) simp
  then show ?thesis
    by (simp add: eq)
qed

lemma forward_all_returns:
  "forward_all cs s = Inr s1 \<Longrightarrow> s1 = s\<lparr>reporter := reporter s @ cs\<rparr>"
proof (induction cs arbitrary: s)
  case Nil
  then show ?case by simp
next
  case (Cons c cs)
  from Cons.prems obtain s0 where f: "forward c s = Inr s0" and r: "forward_all cs s0 = Inr s1"
    by (auto split: sum.splits)
  from f have "s0 = report c s"
    by (auto simp: forward_def split: option.splits)
  with Cons.IH [OF r] show ?case
    by (simp add: report_def)
qed

lemma summary_performed_returns:
  assumes "raised (perform (Op_summary now) s) = None"
  shows "perform (Op_summary now) s = Inr (snd (TestSuite_summary now s))"
proof -
  from summary_state [of now s] obtain calls where
    eq: "snd (TestSuite_summary now s) = s\<lparr>reporter := reporter s @ calls\<rparr>"
    by blast
  from assms obtain s1 where "perform (Op_summary now) s = Inr s1"
    by (cases "perform (Op_summary now) s") (auto simp: raised_def)
  then have r: "forward_all calls s = Inr s1"
    by (simp add: eq)
  from forward_all_returns [OF r] r show ?thesis
    by (simp add: eq)
qed

lemma summary_performed_state:
  "observable (the_suite (perform (Op_summary now) s)) = observable s"
  "verbosity (the_suite (perform (Op_summary now) s)) = verbosity s"
  using forward_all_fields
    [of "drop (length (reporter s)) (reporter (snd (TestSuite_summary now s)))" s]
  by (simp_all add: observable_def)

lemma summary_performed_below_normal:
  "verbosity s < NORMAL \<Longrightarrow> perform (Op_summary now) s = Inr s"
  by (simp add: summary_below_normal)

lemma test_depends_on_observable:
  assumes "observable t = observable s" and "verbosity t = verbosity s"
    and "raises t = raises s"
  shows "map_sum (\<lambda>(e, u). (e, observable u)) observable (TestSuite_test descr assertion t)
       = map_sum (\<lambda>(e, u). (e, observable u)) observable (TestSuite_test descr assertion s)"
  using assms
  by (auto simp: TestSuite_test_def observable_def Let_def forward_def report_def
      split: sum.splits option.splits)

text \<open>
  Claim C2. For every suite, whatever passing and failing test calls it has seen,
  \<open>summary()\<close> returns true exactly when the failure accumulator is empty, at every
  verbosity; after any sequence of operations on a new suite that is exactly when every
  Result produced passed. Below NORMAL (SILENT or QUIET) \<open>summary()\<close> makes no call to
  the reporter and still returns that boolean. At NORMAL and above the reporter is called,
  and a call of \<open>summary()\<close> that returns has made the calls and returns the boolean
  given here.
\<close>

theorem summary_true_iff_no_failures:
  "fst (TestSuite_summary now s) = (failures s = [])
   \<and> (verbosity s < NORMAL \<longrightarrow> reporter (snd (TestSuite_summary now s)) = reporter s)
   \<and> (verbosity s < NORMAL \<longrightarrow> perform (Op_summary now) s = Inr s)
   \<and> (raised (perform (Op_summary now) s) = None \<longrightarrow>
        perform (Op_summary now) s = Inr (snd (TestSuite_summary now s)))
   \<and> (run xs (TestSuite nm v rep t0) = Inr s \<longrightarrow>
        fst (TestSuite_summary now s)
          = (\<forall>r \<in> set (results xs (TestSuite nm v rep t0)). truthy (passed r)))"
proof -
  have "fst (TestSuite_summary now s)
      = (\<forall>r \<in> set (results xs (TestSuite nm v rep t0)). truthy (passed r))"
    if "run xs (TestSuite nm v rep t0) = Inr s"
  proof -
    from run_results [OF that]
    have "failures s = filter (\<lambda>r. \<not> truthy (passed r)) (results xs (TestSuite nm v rep t0))"
      by (simp add: TestSuite_def)
    then show ?thesis
      by (simp add: summary_returns filter_empty_conv)
  qed
  then have c: "run xs (TestSuite nm v rep t0) = Inr s \<longrightarrow>
        fst (TestSuite_summary now s)
          = (\<forall>r \<in> set (results xs (TestSuite nm v rep t0)). truthy (passed r))"
    by blast
  have a: "fst (TestSuite_summary now s) = (failures s = [])"
    by (rule summary_returns)
  have b: "verbosity s < NORMAL \<longrightarrow> reporter (snd (TestSuite_summary now s)) = reporter s"
    by (simp add: summary_below_normal)
  have below: "verbosity s < NORMAL \<longrightarrow> perform (Op_summary now) s = Inr s"
    using summary_performed_below_normal by blast
  have link: "raised (perform (Op_summary now) s) = None \<longrightarrow>
        perform (Op_summary now) s = Inr (snd (TestSuite_summary now s))"
    using summary_performed_returns by blast
  from a b below link c show ?thesis
    by (intro conjI)
qed

theorem summary_true_iff_no_failures_witness:
  "verbosity (TestSuite (js ''S'') (Some QUIET) returning 0) < NORMAL
   \<and> reporter (snd (TestSuite_summary 9 (TestSuite (js ''S'') (Some QUIET) returning 0))) = []
   \<and> perform (Op_summary 9) (TestSuite (js ''S'') (Some QUIET) returning 0)
       = Inr (TestSuite (js ''S'') (Some QUIET) returning 0)
   \<and> raised (perform (Op_summary 9) (TestSuite (js ''S'') None returning 0)) = None
   \<and> perform (Op_summary 9) (TestSuite (js ''S'') None returning 0)
       = Inr (snd (TestSuite_summary 9 (TestSuite (js ''S'') None returning 0)))
   \<and> run [Op_test (js ''t1'') (Returns (Bool True)), Op_test (js ''t2'') (Returns (Bool False))]
        (TestSuite (js ''S'') (Some SILENT) returning 0)
      = Inr (the_suite (run [Op_test (js ''t1'') (Returns (Bool True)),
               Op_test (js ''t2'') (Returns (Bool False))]
               (TestSuite (js ''S'') (Some SILENT) returning 0)))
   \<and> \<not> fst (TestSuite_summary 9 (the_suite (run [Op_test (js ''t1'') (Returns (Bool True)),
               Op_test (js ''t2'') (Returns (Bool False))]
               (TestSuite (js ''S'') (Some SILENT) returning 0))))"
proof -
  have q: "verbosity (TestSuite (js ''S'') (Some QUIET) returning 0) < NORMAL"
    by (simp add: TestSuite_def VERBOSITY_LEVELS)
  have r: "run [Op_test (js ''t1'') (Returns (Bool True)), Op_test (js ''t2'') (Returns (Bool False))]
        (TestSuite (js ''S'') (Some SILENT) returning 0)
      = Inr (the_suite (run [Op_test (js ''t1'') (Returns (Bool True)),
               Op_test (js ''t2'') (Returns (Bool False))]
               (TestSuite (js ''S'') (Some SILENT) returning 0)))"
    by (simp add: the_suite_def TestSuite_test_def settle_def TestSuite_def VERBOSITY_LEVELS
        Let_def report_def)
  have f: "failures (the_suite (run [Op_test (js ''t1'') (Returns (Bool True)),
               Op_test (js ''t2'') (Returns (Bool False))]
               (TestSuite (js ''S'') (Some SILENT) returning 0)))
        \<noteq> []"
    by (simp add: the_suite_def TestSuite_test_def settle_def TestSuite_def VERBOSITY_LEVELS
        Let_def report_def)
  have n: "raised (perform (Op_summary 9) (TestSuite (js ''S'') None returning 0)) = None"
    by (simp add: TestSuite_summary_def TestSuite_def VERBOSITY_LEVELS report_def forward_def
        returning_def raised_def)
  from n summary_true_iff_no_failures [of 9 "TestSuite (js ''S'') None returning 0" "[]" "[]"
      None returning 0]
  have p: "perform (Op_summary 9) (TestSuite (js ''S'') None returning 0)
       = Inr (snd (TestSuite_summary 9 (TestSuite (js ''S'') None returning 0)))"
    by (elim conjE) (rule mp)
  from q r f
    summary_true_iff_no_failures [of 9 "TestSuite (js ''S'') (Some QUIET) returning 0" "[]" "[]"
      None returning 0]
    summary_true_iff_no_failures [of 9 "the_suite (run [Op_test (js ''t1'') (Returns (Bool True)),
               Op_test (js ''t2'') (Returns (Bool False))]
               (TestSuite (js ''S'') (Some SILENT) returning 0))"
      "[Op_test (js ''t1'') (Returns (Bool True)), Op_test (js ''t2'') (Returns (Bool False))]"
      "js ''S''" "Some SILENT" returning 0]
  have rest: "verbosity (TestSuite (js ''S'') (Some QUIET) returning 0) < NORMAL
   \<and> reporter (snd (TestSuite_summary 9 (TestSuite (js ''S'') (Some QUIET) returning 0))) = []
   \<and> perform (Op_summary 9) (TestSuite (js ''S'') (Some QUIET) returning 0)
       = Inr (TestSuite (js ''S'') (Some QUIET) returning 0)
   \<and> run [Op_test (js ''t1'') (Returns (Bool True)), Op_test (js ''t2'') (Returns (Bool False))]
        (TestSuite (js ''S'') (Some SILENT) returning 0)
      = Inr (the_suite (run [Op_test (js ''t1'') (Returns (Bool True)),
               Op_test (js ''t2'') (Returns (Bool False))]
               (TestSuite (js ''S'') (Some SILENT) returning 0)))
   \<and> \<not> fst (TestSuite_summary 9 (the_suite (run [Op_test (js ''t1'') (Returns (Bool True)),
               Op_test (js ''t2'') (Returns (Bool False))]
               (TestSuite (js ''S'') (Some SILENT) returning 0))))"
    by (simp add: TestSuite_def)
  from rest n p show ?thesis
    by simp
qed

text \<open>
  Claim C10. \<open>summary()\<close> leaves section number, test number and both accumulators
  as they were, at every verbosity, also when the reporter raises in it; after any number
  of \<open>summary()\<close> calls in a row a further call returns the same boolean, and a
  following \<open>test\<close> call has the same outcome, with the same Result and id, as it would
  have had without them.
\<close>

theorem summary_leaves_state:
  "observable (snd (TestSuite_summary now s)) = observable s
   \<and> verbosity (snd (TestSuite_summary now s)) = verbosity s
   \<and> observable (the_suite (perform (Op_summary now) s)) = observable s
   \<and> observable (summaries nows s) = observable s
   \<and> fst (TestSuite_summary now1 (summaries nows s)) = fst (TestSuite_summary now s)
   \<and> map_sum (\<lambda>(e, u). (e, observable u)) observable
        (TestSuite_test descr assertion (summaries nows s))
     = map_sum (\<lambda>(e, u). (e, observable u)) observable (TestSuite_test descr assertion s)"
proof -
  have "failures (summaries nows s) = failures s"
    using summaries_observable [of nows s] by (simp add: observable_def)
  then have "fst (TestSuite_summary now1 (summaries nows s)) = fst (TestSuite_summary now s)"
    by (simp add: summary_returns)
  with summary_observable summary_verbosity summaries_observable summary_performed_state(1)
    test_depends_on_observable [OF summaries_observable summaries_verbosity summaries_raises]
  show ?thesis by blast
qed

section \<open>Section and test numbering\<close>

lemma settle_returns: "\<exists>r. settle (Returns v) r0 = Inr r"
  by (simp add: settle_def)

lemma test_settled:
  "settle assertion \<lparr> id_r = next_id s, description = descr, passed = Bool False,
       actual = Null, expected = Null, message = Null \<rparr> = Inr r \<Longrightarrow>
   appended s (the_suite (TestSuite_test descr assertion s)) = [r]"
  "settle assertion \<lparr> id_r = next_id s, description = descr, passed = Bool False,
       actual = Null, expected = Null, message = Null \<rparr> = Inl e \<Longrightarrow>
   appended s (the_suite (TestSuite_test descr assertion s)) = []"
proof -
  assume st: "settle assertion \<lparr> id_r = next_id s, description = descr, passed = Bool False,
       actual = Null, expected = Null, message = Null \<rparr> = Inr r"
  from test_stores(1) [OF st] obtain calls where
    eq: "the_suite (TestSuite_test descr assertion s) =
     (if truthy (passed r)
      then s\<lparr>testNumber := testNumber s + 1, successes := successes s @ [r],
             reporter := reporter s @ calls\<rparr>
      else s\<lparr>testNumber := testNumber s + 1, failures := failures s @ [r],
             reporter := reporter s @ calls\<rparr>)"
    by blast
  show "appended s (the_suite (TestSuite_test descr assertion s)) = [r]"
    unfolding eq by (simp add: appended_def)
next
  assume st: "settle assertion \<lparr> id_r = next_id s, description = descr, passed = Bool False,
       actual = Null, expected = Null, message = Null \<rparr> = Inl e"
  from test_raises [OF st]
  show "appended s (the_suite (TestSuite_test descr assertion s)) = []"
    by (simp add: outcome_simps appended_def)
qed

lemma stores_appended:
  "length (appended s (the_suite (perform x s))) = (if stores x then 1 else 0)"
proof (cases "is_test x")
  case False
  then have "\<not> stores x"
    by (cases x) simp_all
  with other_fields(1,2) [OF False, of s] show ?thesis
    by (simp add: appended_def)
next
  case True
  let ?r0 = "\<lparr> id_r = next_id s, description = descr, passed = Bool False,
       actual = Null, expected = Null, message = Null \<rparr>"
  show ?thesis
  proof (cases x)
    case (Op_test descr assertion)
    show ?thesis
    proof (cases assertion)
      case (Returns v)
      from settle_returns [of v "\<lparr> id_r = next_id s, description = descr, passed = Bool False,
         actual = Null, expected = Null, message = Null \<rparr>"]
      obtain r where "settle (Returns v) \<lparr> id_r = next_id s, description = descr,
         passed = Bool False, actual = Null, expected = Null, message = Null \<rparr> = Inr r"
        by blast
      from test_settled(1) [OF this] show ?thesis
        by (simp add: Op_test Returns)
    next
      case (Throws e)
      show ?thesis
      proof (cases "nullish e")
        case n: True
        then have "settle (Throws e) \<lparr> id_r = next_id s, description = descr,
           passed = Bool False, actual = Null, expected = Null, message = Null \<rparr> = Inl TypeError"
          by (simp add: settle_throws)
        from test_settled(2) [OF this] n show ?thesis
          by (simp add: Op_test Throws)
      next
        case n: False
        then have "settle (Throws e) \<lparr> id_r = next_id s, description = descr,
           passed = Bool False, actual = Null, expected = Null, message = Null \<rparr>
          = Inr \<lparr> id_r = next_id s, description = descr,
           passed = Bool False, actual = Null, expected = Null,
           message = own_prop e (js ''message'') \<rparr>"
          by (simp add: settle_throws)
        from test_settled(1) [OF this] n show ?thesis
          by (simp add: Op_test Throws)
      qed
    qed
  next
    case (Op_assertEqual a b descr)
    have "settle (Returns (Obj 0 [(js ''passed'', Bool (strict_eq a b)), (js ''actual'', a),
           (js ''expected'', b),
           (js ''message'', if strict_eq a b then Null else Str (js ''Values do not match''))]))
         \<lparr> id_r = next_id s, description = descr, passed = Bool False,
           actual = Null, expected = Null, message = Null \<rparr>
       = Inr \<lparr> id_r = next_id s, description = descr, passed = Bool (strict_eq a b),
           actual = a, expected = b,
           message = (if strict_eq a b then Null else Str (js ''Values do not match'')) \<rparr>"
      by (simp add: settle_literal)
    from test_settled(1) [OF this] show ?thesis
      by (simp add: Op_assertEqual TestSuite_assertEqual_def)
  next
    case (Op_assertArraysEqual a b descr)
    have "settle (Returns (Obj 0 [(js ''passed'', Bool (arraysEqual a b)), (js ''actual'', a),
           (js ''expected'', b),
           (js ''message'', if arraysEqual a b then Null else Str (js ''Arrays do not match''))]))
         \<lparr> id_r = next_id s, description = descr, passed = Bool False,
           actual = Null, expected = Null, message = Null \<rparr>
       = Inr \<lparr> id_r = next_id s, description = descr, passed = Bool (arraysEqual a b),
           actual = a, expected = b,
           message = (if arraysEqual a b then Null else Str (js ''Arrays do not match'')) \<rparr>"
      by (simp add: settle_literal)
    from test_settled(1) [OF this] show ?thesis
      by (simp add: Op_assertArraysEqual TestSuite_assertArraysEqual_def)
  qed (use True in simp_all)
qed

lemma stored_count:
  "i < length xs \<Longrightarrow> length (stored xs s ! i) = (if stores (xs ! i) then 1 else 0)"
proof (induction xs arbitrary: s i)
  case Nil
  then show ?case by simp
next
  case (Cons x xs)
  show ?case
  proof (cases i)
    case 0
    then show ?thesis
      by (simp add: stores_appended)
  next
    case (Suc j)
    with Cons.prems have "j < length xs"
      by simp
    from Cons.IH [OF this, of "the_suite (perform x s)"] Suc show ?thesis
      by simp
  qed
qed

lemma section_at_normal:
  assumes "NORMAL \<le> verbosity s"
  shows "the_suite (TestSuite_section title s) =
       s\<lparr>sectionNumber := sectionNumber s + 1, testNumber := 0,
         reporter := reporter s @ [Call_section (sectionNumber s + 1) title]\<rparr>"
    and "raised (TestSuite_section title s) = raises s (Call_section (sectionNumber s + 1) title)"
  using assms
  by (simp_all add: TestSuite_section_def forward_cases report_def Let_def)

lemma section_below_normal: "verbosity s < NORMAL \<Longrightarrow> TestSuite_section title s = Inr s"
  by (simp add: TestSuite_section_def)

text \<open>
  At QUIET a \<open>section\<close> call changes nothing, so two failing tests in two sections are
  numbered 0.1 and 0.2; at NORMAL they are 1.1 and 2.1.
\<close>

theorem section_skipped_below_normal:
  "sectionNumber (the_suite (TestSuite_section (js ''A'')
        (TestSuite (js ''S'') (Some QUIET) returning 0))) = 0
   \<and> reporter (the_suite (TestSuite_section (js ''A'')
        (TestSuite (js ''S'') (Some QUIET) returning 0))) = []
   \<and> map id_r (failures (the_suite (run
        [Op_section (js ''A''), Op_test (js ''t1'') (Returns (Bool False)),
         Op_section (js ''B''), Op_test (js ''t2'') (Returns (Bool False))]
        (TestSuite (js ''S'') (Some QUIET) returning 0)))) = [js ''0.1'', js ''0.2'']
   \<and> map id_r (failures (the_suite (run
        [Op_section (js ''A''), Op_test (js ''t1'') (Returns (Bool False)),
         Op_section (js ''B''), Op_test (js ''t2'') (Returns (Bool False))]
        (TestSuite (js ''S'') (Some NORMAL) returning 0)))) = [js ''1.1'', js ''2.1'']"
  by code_simp

text \<open>
  Claim C1. (as amended) At verbosity NORMAL or above, \<open>section(title)\<close> adds one to
  the section number, resets the test number to 0 and forwards to the reporter; below
  NORMAL it returns at once and leaves the suite as it is. Among operations with no
  \<open>section\<close> call between them, whether they return or raise, only a test call stores a
  Result: one when its assertion returns or throws a value other than \<open>null\<close> and
  \<open>undefined\<close>, none where the handler fails on these two. The Result stored by the Nth
  test call has as id the section number, a dot, and the test number before the first of
  them plus N; right after a \<open>section\<close> call that took effect this is
  \<open>"<sectionNumber>.N"\<close>, N counting from 1 again.
\<close>

theorem section_numbering:
  "(NORMAL \<le> verbosity s \<longrightarrow>
      sectionNumber (the_suite (TestSuite_section title s)) = sectionNumber s + 1
      \<and> testNumber (the_suite (TestSuite_section title s)) = 0
      \<and> reporter (the_suite (TestSuite_section title s))
          = reporter s @ [Call_section (sectionNumber s + 1) title]
      \<and> raised (TestSuite_section title s)
          = raises s (Call_section (sectionNumber s + 1) title))
   \<and> (verbosity s < NORMAL \<longrightarrow> TestSuite_section title s = Inr s)
   \<and> ((\<forall>x \<in> set xs. \<not> is_section x) \<and> i < length xs \<longrightarrow>
        length (stored xs s ! i) = (if stores (xs ! i) then 1 else 0)
        \<and> (stores (xs ! i) \<longrightarrow> is_test (xs ! i))
        \<and> (\<forall>r \<in> set (stored xs s ! i).
             id_r r = show_nat (sectionNumber s) @ js ''.''
               @ show_nat (testNumber s + length (filter is_test (take (Suc i) xs)))))
   \<and> (NORMAL \<le> verbosity s \<and> (\<forall>x \<in> set xs. \<not> is_section x) \<and> i < length xs \<longrightarrow>
        length (stored xs (the_suite (TestSuite_section title s)) ! i)
          = (if stores (xs ! i) then 1 else 0)
        \<and> (\<forall>r \<in> set (stored xs (the_suite (TestSuite_section title s)) ! i).
             id_r r = show_nat (sectionNumber s + 1) @ js ''.''
               @ show_nat (length (filter is_test (take (Suc i) xs)))))"
proof -
  have a: "NORMAL \<le> verbosity s \<longrightarrow>
      sectionNumber (the_suite (TestSuite_section title s)) = sectionNumber s + 1
      \<and> testNumber (the_suite (TestSuite_section title s)) = 0
      \<and> reporter (the_suite (TestSuite_section title s))
          = reporter s @ [Call_section (sectionNumber s + 1) title]
      \<and> raised (TestSuite_section title s)
          = raises s (Call_section (sectionNumber s + 1) title)"
    by (simp add: section_at_normal)
  have b: "verbosity s < NORMAL \<longrightarrow> TestSuite_section title s = Inr s"
    by (simp add: section_below_normal)
  have t: "stores x \<longrightarrow> is_test x" for x
    by (cases x) simp_all
  have c: "length (stored xs u ! i) = (if stores (xs ! i) then 1 else 0)
        \<and> (stores (xs ! i) \<longrightarrow> is_test (xs ! i))
        \<and> (\<forall>r \<in> set (stored xs u ! i).
             id_r r = show_nat (sectionNumber u) @ js ''.''
               @ show_nat (testNumber u + length (filter is_test (take (Suc i) xs))))"
    if "\<forall>x \<in> set xs. \<not> is_section x" and "i < length xs" for u
    using stored_count [OF that(2), of u] stored_ids [OF that] t [of "xs ! i"]
    by blast
  have d: "NORMAL \<le> verbosity s \<and> (\<forall>x \<in> set xs. \<not> is_section x) \<and> i < length xs \<longrightarrow>
        length (stored xs (the_suite (TestSuite_section title s)) ! i)
          = (if stores (xs ! i) then 1 else 0)
        \<and> (\<forall>r \<in> set (stored xs (the_suite (TestSuite_section title s)) ! i).
             id_r r = show_nat (sectionNumber s + 1) @ js ''.''
               @ show_nat (length (filter is_test (take (Suc i) xs))))"
  proof (intro impI, elim conjE)
    assume v: "NORMAL \<le> verbosity s" and n: "\<forall>x \<in> set xs. \<not> is_section x"
      and i: "i < length xs"
    from a v have sec: "sectionNumber (the_suite (TestSuite_section title s)) = sectionNumber s + 1"
      and tst: "testNumber (the_suite (TestSuite_section title s)) = 0"
      by simp_all
    from c [OF n i, of "the_suite (TestSuite_section title s)"]
    show "length (stored xs (the_suite (TestSuite_section title s)) ! i)
          = (if stores (xs ! i) then 1 else 0)
        \<and> (\<forall>r \<in> set (stored xs (the_suite (TestSuite_section title s)) ! i).
             id_r r = show_nat (sectionNumber s + 1) @ js ''.''
               @ show_nat (length (filter is_test (take (Suc i) xs))))"
      unfolding sec tst by simp
  qed
  from a b c [of s] d show ?thesis
    by blast
qed

theorem section_numbering_witness:
  "NORMAL \<le> verbosity (TestSuite (js ''S'') None returning 0)
   \<and> verbosity (TestSuite (js ''S'') (Some SILENT) returning 0) < NORMAL
   \<and> TestSuite_section (js ''A'') (TestSuite (js ''S'') (Some SILENT) returning 0)
        = Inr (TestSuite (js ''S'') (Some SILENT) returning 0)
   \<and> sectionNumber (the_suite (TestSuite_section (js ''A'')
        (TestSuite (js ''S'') None returning 0))) = 1
   \<and> stored [Op_test (js ''t1'') (Returns (Bool True)), Op_log [],
          Op_test (js ''t2'') (Throws Null), Op_test (js ''t3'') (Returns (Bool False))]
        (the_suite (TestSuite_section (js ''A'') (TestSuite (js ''S'') None returning 0))) ! 2 = []
   \<and> map id_r (stored [Op_test (js ''t1'') (Returns (Bool True)), Op_log [],
          Op_test (js ''t2'') (Throws Null), Op_test (js ''t3'') (Returns (Bool False))]
        (the_suite (TestSuite_section (js ''A'') (TestSuite (js ''S'') None returning 0))) ! 3)
      = [js ''1.3'']"
proof -
  let ?s = "TestSuite (js ''S'') None returning 0"
  let ?q = "TestSuite (js ''S'') (Some SILENT) returning 0"
  let ?xs = "[Op_test (js ''t1'') (Returns (Bool True)), Op_log [],
          Op_test (js ''t2'') (Throws Null), Op_test (js ''t3'') (Returns (Bool False))]"
  let ?s1 = "the_suite (TestSuite_section (js ''A'') ?s)"
  have v: "NORMAL \<le> verbosity ?s"
    by (simp add: TestSuite_def VERBOSITY_LEVELS)
  have q: "verbosity ?q < NORMAL"
    by (simp add: TestSuite_def VERBOSITY_LEVELS)
  have n: "\<forall>x \<in> set ?xs. \<not> is_section x"
    by simp
  have i2: "(2::nat) < length ?xs" and i3: "(3::nat) < length ?xs"
    by simp_all
  from section_numbering [of ?s "js ''A''" ?xs 2] v n i2
  have "length (stored ?xs ?s1 ! 2) = (if stores (?xs ! 2) then 1 else 0)"
    by blast
  then have none: "stored ?xs ?s1 ! 2 = []"
    by simp
  from section_numbering [of ?s "js ''A''" ?xs 3] v n i3
  have sec: "sectionNumber ?s1 = sectionNumber ?s + 1"
    and len: "length (stored ?xs ?s1 ! 3) = (if stores (?xs ! 3) then 1 else 0)"
    and ids: "\<forall>r \<in> set (stored ?xs ?s1 ! 3).
             id_r r = show_nat (sectionNumber ?s + 1) @ js ''.''
               @ show_nat (length (filter is_test (take (Suc 3) ?xs)))"
    by blast+
  from len have "length (stored ?xs ?s1 ! 3) = Suc 0"
    by simp
  then obtain r where r: "stored ?xs ?s1 ! 3 = [r]"
    by (auto simp: length_Suc_conv)
  have "show_nat (sectionNumber ?s + 1) @ js ''.''
      @ show_nat (length (filter is_test (take (Suc 3) ?xs))) = js ''1.3''"
    by code_simp
  with ids r have "id_r r = js ''1.3''"
    by simp
  with r have ids': "map id_r (stored ?xs ?s1 ! 3) = [js ''1.3'']"
    by simp
  have "sectionNumber ?s + 1 = 1"
    by (simp add: TestSuite_def)
  with sec have sec': "sectionNumber ?s1 = 1"
    by (rule trans)
  from section_numbering [of ?q "js ''A''" "[]" 0] q
  have same: "TestSuite_section (js ''A'') ?q = Inr ?q"
    by blast
  from v q same sec' none ids' show ?thesis
    by (intro conjI)
qed

section \<open>Faults raised by the assertion\<close>

text \<open>
  A thrown value that has properties is recovered: the failing Result is stored with the
  value's \<open>message\<close>, and the call raises only if the reporter does.
\<close>

lemma fault_recovered:
  assumes "\<not> nullish e"
  shows "failures (the_suite (TestSuite_test descr (Throws e) s))
       = failures s @ [\<lparr> id_r = next_id s, description = descr, passed = Bool False,
           actual = Null, expected = Null, message = own_prop e (js ''message'') \<rparr>]"
    and "successes (the_suite (TestSuite_test descr (Throws e) s)) = successes s"
    and "raised (TestSuite_test descr (Throws e) s)
       = (if QUIET \<le> verbosity s
          then raises s (Call_testFailed (next_id s) descr
            \<lparr> id_r = next_id s, description = descr, passed = Bool False,
              actual = Null, expected = Null, message = own_prop e (js ''message'') \<rparr>)
          else None)"
proof -
  have st: "settle (Throws e) \<lparr> id_r = next_id s, description = descr, passed = Bool False,
       actual = Null, expected = Null, message = Null \<rparr>
    = Inr \<lparr> id_r = next_id s, description = descr, passed = Bool False,
           actual = Null, expected = Null, message = own_prop e (js ''message'') \<rparr>"
    using assms by (simp add: settle_throws)
  from test_stores(1) [OF st] obtain calls where
    eq: "the_suite (TestSuite_test descr (Throws e) s) =
       s\<lparr>testNumber := testNumber s + 1,
         failures := failures s @ [\<lparr> id_r = next_id s, description = descr, passed = Bool False,
           actual = Null, expected = Null, message = own_prop e (js ''message'') \<rparr>],
         reporter := reporter s @ calls\<rparr>"
    by auto
  show "failures (the_suite (TestSuite_test descr (Throws e) s))
       = failures s @ [\<lparr> id_r = next_id s, description = descr, passed = Bool False,
           actual = Null, expected = Null, message = own_prop e (js ''message'') \<rparr>]"
    and "successes (the_suite (TestSuite_test descr (Throws e) s)) = successes s"
    unfolding eq by simp_all
  from test_stores(2) [OF st]
  show "raised (TestSuite_test descr (Throws e) s)
       = (if QUIET \<le> verbosity s
          then raises s (Call_testFailed (next_id s) descr
            \<lparr> id_r = next_id s, description = descr, passed = Bool False,
              actual = Null, expected = Null, message = own_prop e (js ''message'') \<rparr>)
          else None)"
    by simp
qed

lemma boom_recovered:
  "map message (failures (the_suite (TestSuite_test (js ''t'')
      (Throws (Obj 1 [(js ''name'', Str (js ''Error'')), (js ''message'', Str (js ''boom''))]))
      (TestSuite (js ''S'') None returning 0)))) = [Str (js ''boom'')]"
  by (simp add: fault_recovered TestSuite_def js_def)

text \<open>
  Claim C3. The handler of \<open>test\<close> does not recover every fault: when the assertion
  throws \<open>null\<close> or \<open>undefined\<close>, the handler's read of \<open>error.message\<close> raises a
  TypeError, which leaves \<open>test\<close> and reaches the caller; the test counter has advanced
  and no Result is stored.
\<close>

theorem test_propagates_nullish_fault:
  "TestSuite_test descr (Throws Null) s = Inl (TypeError, s\<lparr>testNumber := testNumber s + 1\<rparr>)
   \<and> TestSuite_test descr (Throws Undefined) s
       = Inl (TypeError, s\<lparr>testNumber := testNumber s + 1\<rparr>)
   \<and> raised (TestSuite_test (js ''t'') (Throws Null) (TestSuite (js ''S'') None returning 0))
       = Some TypeError
   \<and> failures (the_suite (TestSuite_test (js ''t'') (Throws Null)
       (TestSuite (js ''S'') None returning 0))) = []"
  by (simp add: test_raises settle_throws outcome_simps TestSuite_def)

section \<open>The accumulators\<close>

text \<open>
  Claim C9. A test call does not always append a Result: when its assertion throws
  \<open>null\<close> or \<open>undefined\<close> the call raises from the handler with both accumulators as
  they were and the test counter advanced. After a passing test and a test whose assertion
  throws \<open>undefined\<close> the accumulators hold one Result for two test invocations.
\<close>

theorem test_raise_appends_nothing:
  "is_test (Op_test descr (Throws Undefined))
   \<and> raised (perform (Op_test descr (Throws Undefined)) s) = Some TypeError
   \<and> appended s (the_suite (perform (Op_test descr (Throws Undefined)) s)) = []
   \<and> successes (the_suite (perform (Op_test descr (Throws Undefined)) s)) = successes s
   \<and> failures (the_suite (perform (Op_test descr (Throws Undefined)) s)) = failures s
   \<and> testNumber (the_suite (perform (Op_test descr (Throws Undefined)) s)) = testNumber s + 1
   \<and> map length (stored
        [Op_test (js ''t1'') (Returns (Bool True)), Op_test (js ''t2'') (Throws Undefined)]
        (TestSuite (js ''S'') None returning 0)) = [1, 0]
   \<and> length (successes (the_suite (run
        [Op_test (js ''t1'') (Returns (Bool True)), Op_test (js ''t2'') (Throws Undefined)]
        (TestSuite (js ''S'') None returning 0)))) = 1
   \<and> length (failures (the_suite (run
        [Op_test (js ''t1'') (Returns (Bool True)), Op_test (js ''t2'') (Throws Undefined)]
        (TestSuite (js ''S'') None returning 0)))) = 0
   \<and> testNumber (the_suite (run
        [Op_test (js ''t1'') (Returns (Bool True)), Op_test (js ''t2'') (Throws Undefined)]
        (TestSuite (js ''S'') None returning 0))) = 2"
proof -
  have "settle (Throws Undefined) \<lparr> id_r = next_id s, description = descr,
       passed = Bool False, actual = Null, expected = Null, message = Null \<rparr> = Inl TypeError"
    by (simp add: settle_throws)
  from test_raises [OF this]
  have general: "raised (perform (Op_test descr (Throws Undefined)) s) = Some TypeError
     \<and> appended s (the_suite (perform (Op_test descr (Throws Undefined)) s)) = []
     \<and> successes (the_suite (perform (Op_test descr (Throws Undefined)) s)) = successes s
     \<and> failures (the_suite (perform (Op_test descr (Throws Undefined)) s)) = failures s
     \<and> testNumber (the_suite (perform (Op_test descr (Throws Undefined)) s)) = testNumber s + 1"
    by (simp add: outcome_simps appended_def)
  have closed: "map length (stored
        [Op_test (js ''t1'') (Returns (Bool True)), Op_test (js ''t2'') (Throws Undefined)]
        (TestSuite (js ''S'') None returning 0)) = [1, 0]
   \<and> length (successes (the_suite (run
        [Op_test (js ''t1'') (Returns (Bool True)), Op_test (js ''t2'') (Throws Undefined)]
        (TestSuite (js ''S'') None returning 0)))) = 1
   \<and> length (failures (the_suite (run
        [Op_test (js ''t1'') (Returns (Bool True)), Op_test (js ''t2'') (Throws Undefined)]
        (TestSuite (js ''S'') None returning 0)))) = 0
   \<and> testNumber (the_suite (run
        [Op_test (js ''t1'') (Returns (Bool True)), Op_test (js ''t2'') (Throws Undefined)]
        (TestSuite (js ''S'') None returning 0))) = 2"
    by code_simp
  from general closed show ?thesis
    by simp
qed

section \<open>Equality assertions\<close>

lemma strict_eq_refl: "strict_eq x x \<longleftrightarrow> x \<noteq> Num NaN"
proof (cases x)
  case (Num n)
  then show ?thesis by (cases n) simp_all
qed simp_all

text \<open>What \<open>test\<close> does with the object literal the two equality assertions hand it.\<close>

lemma test_literal:
  "successes (the_suite (TestSuite_test descr (Returns (Obj p [(js ''passed'', Bool b),
       (js ''actual'', a), (js ''expected'', e), (js ''message'', m)])) s))
     = (if b then successes s @ [\<lparr> id_r = next_id s, description = descr, passed = Bool b,
          actual = a, expected = e, message = m \<rparr>] else successes s)"
  "failures (the_suite (TestSuite_test descr (Returns (Obj p [(js ''passed'', Bool b),
       (js ''actual'', a), (js ''expected'', e), (js ''message'', m)])) s))
     = (if b then failures s else failures s @ [\<lparr> id_r = next_id s, description = descr,
          passed = Bool b, actual = a, expected = e, message = m \<rparr>])"
  "raised (TestSuite_test descr (Returns (Obj p [(js ''passed'', Bool b),
       (js ''actual'', a), (js ''expected'', e), (js ''message'', m)])) s)
     = (if b then (if VERBOSE \<le> verbosity s
                   then raises s (Call_testPassed (next_id s) descr) else None)
        else (if QUIET \<le> verbosity s
              then raises s (Call_testFailed (next_id s) descr
                \<lparr> id_r = next_id s, description = descr, passed = Bool b,
                  actual = a, expected = e, message = m \<rparr>) else None))"
proof -
  have st: "settle (Returns (Obj p [(js ''passed'', Bool b), (js ''actual'', a),
       (js ''expected'', e), (js ''message'', m)]))
     \<lparr> id_r = next_id s, description = descr, passed = Bool False,
       actual = Null, expected = Null, message = Null \<rparr>
    = Inr \<lparr> id_r = next_id s, description = descr, passed = Bool b,
          actual = a, expected = e, message = m \<rparr>"
    by (simp add: settle_literal)
  from test_stores(1) [OF st] obtain calls where
    eq: "the_suite (TestSuite_test descr (Returns (Obj p [(js ''passed'', Bool b),
       (js ''actual'', a), (js ''expected'', e), (js ''message'', m)])) s) =
       (if b
        then s\<lparr>testNumber := testNumber s + 1,
          successes := successes s @ [\<lparr> id_r = next_id s, description = descr, passed = Bool b,
            actual = a, expected = e, message = m \<rparr>],
          reporter := reporter s @ calls\<rparr>
        else s\<lparr>testNumber := testNumber s + 1,
          failures := failures s @ [\<lparr> id_r = next_id s, description = descr, passed = Bool b,
            actual = a, expected = e, message = m \<rparr>],
          reporter := reporter s @ calls\<rparr>)"
    by auto
  show "successes (the_suite (TestSuite_test descr (Returns (Obj p [(js ''passed'', Bool b),
       (js ''actual'', a), (js ''expected'', e), (js ''message'', m)])) s))
     = (if b then successes s @ [\<lparr> id_r = next_id s, description = descr, passed = Bool b,
          actual = a, expected = e, message = m \<rparr>] else successes s)"
    unfolding eq by simp
  show "failures (the_suite (TestSuite_test descr (Returns (Obj p [(js ''passed'', Bool b),
       (js ''actual'', a), (js ''expected'', e), (js ''message'', m)])) s))
     = (if b then failures s else failures s @ [\<lparr> id_r = next_id s, description = descr,
          passed = Bool b, actual = a, expected = e, message = m \<rparr>])"
    unfolding eq by simp
  from test_stores(2) [OF st]
  show "raised (TestSuite_test descr (Returns (Obj p [(js ''passed'', Bool b),
       (js ''actual'', a), (js ''expected'', e), (js ''message'', m)])) s)
     = (if b then (if VERBOSE \<le> verbosity s
                   then raises s (Call_testPassed (next_id s) descr) else None)
        else (if QUIET \<le> verbosity s
              then raises s (Call_testFailed (next_id s) descr
                \<lparr> id_r = next_id s, description = descr, passed = Bool b,
                  actual = a, expected = e, message = m \<rparr>) else None))"
    by simp
qed

text \<open>
  \<open>assertEqual(NaN, NaN, d)\<close>: NaN is not strictly equal to itself, so the Result fails
  with the message of unequal values.
\<close>

theorem assertEqual_NaN_fails:
  "successes (the_suite (TestSuite_assertEqual (Num NaN) (Num NaN) (js ''d'')
       (TestSuite (js ''S'') None returning 0))) = []
   \<and> map passed (failures (the_suite (TestSuite_assertEqual (Num NaN) (Num NaN) (js ''d'')
       (TestSuite (js ''S'') None returning 0)))) = [Bool False]
   \<and> map message (failures (the_suite (TestSuite_assertEqual (Num NaN) (Num NaN) (js ''d'')
       (TestSuite (js ''S'') None returning 0)))) = [Str (js ''Values do not match'')]"
  by code_simp

text \<open>
  Claim C4. (as amended) For all values \<open>x\<close>, \<open>y\<close> with \<open>x === y\<close>,
  \<open>assertEqual(x, y, d)\<close> produces a passing Result with no message; for all \<open>x\<close>,
  \<open>y\<close> with \<open>x !== y\<close> it produces a failing Result whose message is exactly
  \<open>"Values do not match"\<close>. The Result is stored before the reporter is called, and the
  call returns unless the reporter raises. Every value is strictly equal to itself except
  NaN, so \<open>assertEqual(x, x, d)\<close> passes for every \<open>x\<close> other than NaN.
\<close>

theorem assertEqual_strict:
  "(strict_eq x y \<longrightarrow>
      successes (the_suite (TestSuite_assertEqual x y descr s))
        = successes s @ [\<lparr> id_r = next_id s, description = descr,
              passed = Bool True, actual = x, expected = y, message = Null \<rparr>]
      \<and> failures (the_suite (TestSuite_assertEqual x y descr s)) = failures s
      \<and> raised (TestSuite_assertEqual x y descr s)
        = (if VERBOSE \<le> verbosity s
           then raises s (Call_testPassed (next_id s) descr) else None))
   \<and> (\<not> strict_eq x y \<longrightarrow>
      failures (the_suite (TestSuite_assertEqual x y descr s))
        = failures s @ [\<lparr> id_r = next_id s, description = descr,
              passed = Bool False, actual = x, expected = y,
              message = Str (js ''Values do not match'') \<rparr>]
      \<and> successes (the_suite (TestSuite_assertEqual x y descr s)) = successes s
      \<and> raised (TestSuite_assertEqual x y descr s)
        = (if QUIET \<le> verbosity s
           then raises s (Call_testFailed (next_id s) descr
             \<lparr> id_r = next_id s, description = descr,
               passed = Bool False, actual = x, expected = y,
               message = Str (js ''Values do not match'') \<rparr>) else None))
   \<and> (strict_eq x x \<longleftrightarrow> x \<noteq> Num NaN)"
  by (simp add: TestSuite_assertEqual_def test_literal strict_eq_refl)

theorem assertEqual_strict_witness:
  "strict_eq (Num (Fin 7)) (Num (Fin 7))
   \<and> map passed (successes (the_suite (TestSuite_assertEqual (Num (Fin 7)) (Num (Fin 7)) (js ''d'')
         (TestSuite (js ''S'') None returning 0)))) = [Bool True]
   \<and> raised (TestSuite_assertEqual (Num (Fin 7)) (Num (Fin 7)) (js ''d'')
         (TestSuite (js ''S'') None returning 0)) = None
   \<and> \<not> strict_eq (Num (Fin 7)) (Str (js ''7''))
   \<and> map message (failures (the_suite (TestSuite_assertEqual (Num (Fin 7)) (Str (js ''7'')) (js ''d'')
         (TestSuite (js ''S'') None returning 0)))) = [Str (js ''Values do not match'')]
   \<and> raised (TestSuite_assertEqual (Num (Fin 7)) (Str (js ''7'')) (js ''d'')
         (TestSuite (js ''S'') None returning 0)) = None"
  using assertEqual_strict [of "Num (Fin 7)" "Num (Fin 7)" "js ''d''"
      "TestSuite (js ''S'') None returning 0"]
    assertEqual_strict [of "Num (Fin 7)" "Str (js ''7'')" "js ''d''"
      "TestSuite (js ''S'') None returning 0"]
  by (simp add: TestSuite_def returning_def)

lemma every_nth:
  "every f xs k \<longleftrightarrow> (\<forall>i < length xs. \<forall>el. xs ! i = Some el \<longrightarrow> f el (k + i))"
proof (induction xs arbitrary: k)
  case Nil
  then show ?case by simp
next
  case (Cons x xs)
  have split: "(\<forall>i < length (x # xs). \<forall>el. (x # xs) ! i = Some el \<longrightarrow> f el (k + i))
      \<longleftrightarrow> ((\<forall>el. x = Some el \<longrightarrow> f el k)
          \<and> (\<forall>i < length xs. \<forall>el. xs ! i = Some el \<longrightarrow> f el (Suc k + i)))"
  proof
    assume a: "\<forall>i < length (x # xs). \<forall>el. (x # xs) ! i = Some el \<longrightarrow> f el (k + i)"
    have "\<forall>el. x = Some el \<longrightarrow> f el k"
      using a by force
    moreover have "\<forall>i < length xs. \<forall>el. xs ! i = Some el \<longrightarrow> f el (Suc k + i)"
      using a by force
    ultimately show "(\<forall>el. x = Some el \<longrightarrow> f el k)
          \<and> (\<forall>i < length xs. \<forall>el. xs ! i = Some el \<longrightarrow> f el (Suc k + i))"
      by simp
  next
    assume a: "(\<forall>el. x = Some el \<longrightarrow> f el k)
          \<and> (\<forall>i < length xs. \<forall>el. xs ! i = Some el \<longrightarrow> f el (Suc k + i))"
    show "\<forall>i < length (x # xs). \<forall>el. (x # xs) ! i = Some el \<longrightarrow> f el (k + i)"
    proof (intro allI impI)
      fix i el assume "i < length (x # xs)" and "(x # xs) ! i = Some el"
      with a show "f el (k + i)"
        by (cases i) auto
    qed
  qed
  show ?case
    unfolding split using Cons.IH [of "Suc k"] by (cases x) simp_all
qed

lemma arraysEqual_iff:
  "arraysEqual a b \<longleftrightarrow>
     (\<exists>p xs q ys. a = Arr p xs \<and> b = Arr q ys \<and> length xs = length ys
        \<and> (\<forall>i < length xs. \<forall>el. xs ! i = Some el \<longrightarrow>
             strict_eq el (case ys ! i of Some v \<Rightarrow> v | None \<Rightarrow> Undefined)))"
proof (cases a)
  case a: (Arr p xs)
  show ?thesis
  proof (cases b)
    case b: (Arr q ys)
    show ?thesis
      by (auto simp: a b arraysEqual_def every_nth at_index_def)
  qed (simp_all add: a arraysEqual_def)
qed (simp_all add: arraysEqual_def)

text \<open>
  An array with a hole: \<open>every\<close> never calls its callback at the hole, so
  \<open>[ , 1]\<close> against \<open>[5, 1]\<close> passes although position 0 reads \<open>undefined\<close> on one
  side and 5 on the other. And two array-like objects that are not arrays fail, whatever
  they hold.
\<close>

theorem assertArraysEqual_skips_holes:
  "arraysEqual (Arr 1 [None, Some (Num (Fin 1))]) (Arr 2 [Some (Num (Fin 5)), Some (Num (Fin 1))])
   \<and> \<not> strict_eq (at_index (Arr 1 [None, Some (Num (Fin 1))]) 0)
         (at_index (Arr 2 [Some (Num (Fin 5)), Some (Num (Fin 1))]) 0)
   \<and> map passed (successes (the_suite (TestSuite_assertArraysEqual
        (Arr 1 [None, Some (Num (Fin 1))]) (Arr 2 [Some (Num (Fin 5)), Some (Num (Fin 1))])
        (js ''d'') (TestSuite (js ''S'') None returning 0)))) = [Bool True]
   \<and> \<not> arraysEqual (Obj 1 [(js ''length'', Num (Fin 0))]) (Obj 2 [(js ''length'', Num (Fin 0))])"
  by code_simp

text \<open>
  Claim C5. (as amended) \<open>assertArraysEqual(actual, expected, description)\<close> produces
  a passing Result if and only if both arguments are arrays (\<open>Array.isArray\<close>; an
  array-like object that is not an array fails) of the same length and every element that
  \<open>actual\<close> holds is strictly equal to what \<open>expected\<close> reads at the same index (holes of
  \<open>actual\<close> are skipped, a hole of \<open>expected\<close> reads \<open>undefined\<close>; nested arrays and
  objects compare by reference identity); otherwise the Result fails with the message
  \<open>"Arrays do not match"\<close>. The Result is stored before the reporter is called, and the
  call returns unless the reporter raises. \<open>[1,2,3]\<close> against \<open>[1,2,3]\<close> passes,
  \<open>[1,2]\<close> against \<open>[1,2,3]\<close> fails, and \<open>[1,[2]]\<close> against \<open>[1,[2]]\<close> fails, the two
  nested arrays being distinct references.
\<close>

theorem assertArraysEqual_shallow:
  "(arraysEqual a b \<longleftrightarrow>
      (\<exists>p xs q ys. a = Arr p xs \<and> b = Arr q ys \<and> length xs = length ys
         \<and> (\<forall>i < length xs. \<forall>el. xs ! i = Some el \<longrightarrow>
              strict_eq el (case ys ! i of Some v \<Rightarrow> v | None \<Rightarrow> Undefined))))
   \<and> (arraysEqual a b \<longrightarrow>
      successes (the_suite (TestSuite_assertArraysEqual a b descr s))
        = successes s @ [\<lparr> id_r = next_id s, description = descr,
              passed = Bool True, actual = a, expected = b, message = Null \<rparr>]
      \<and> failures (the_suite (TestSuite_assertArraysEqual a b descr s)) = failures s
      \<and> raised (TestSuite_assertArraysEqual a b descr s)
        = (if VERBOSE \<le> verbosity s
           then raises s (Call_testPassed (next_id s) descr) else None))
   \<and> (\<not> arraysEqual a b \<longrightarrow>
      failures (the_suite (TestSuite_assertArraysEqual a b descr s))
        = failures s @ [\<lparr> id_r = next_id s, description = descr,
              passed = Bool False, actual = a, expected = b,
              message = Str (js ''Arrays do not match'') \<rparr>]
      \<and> successes (the_suite (TestSuite_assertArraysEqual a b descr s)) = successes s
      \<and> raised (TestSuite_assertArraysEqual a b descr s)
        = (if QUIET \<le> verbosity s
           then raises s (Call_testFailed (next_id s) descr
             \<lparr> id_r = next_id s, description = descr,
               passed = Bool False, actual = a, expected = b,
               message = Str (js ''Arrays do not match'') \<rparr>) else None))
   \<and> arraysEqual (Arr 1 [Some (Num (Fin 1)), Some (Num (Fin 2)), Some (Num (Fin 3))])
        (Arr 2 [Some (Num (Fin 1)), Some (Num (Fin 2)), Some (Num (Fin 3))])
   \<and> \<not> arraysEqual (Arr 1 [Some (Num (Fin 1)), Some (Num (Fin 2))])
        (Arr 2 [Some (Num (Fin 1)), Some (Num (Fin 2)), Some (Num (Fin 3))])
   \<and> \<not> arraysEqual (Arr 1 [Some (Num (Fin 1)), Some (Arr 3 [Some (Num (Fin 2))])])
        (Arr 2 [Some (Num (Fin 1)), Some (Arr 4 [Some (Num (Fin 2))])])
   \<and> \<not> arraysEqual (Obj 1 []) (Arr 2 [])
   \<and> \<not> arraysEqual (Arr 1 []) (Obj 2 [])
   \<and> \<not> arraysEqual (Str []) (Arr 2 [])"
proof -
  have pass: "arraysEqual a b \<longrightarrow>
      successes (the_suite (TestSuite_assertArraysEqual a b descr s))
        = successes s @ [\<lparr> id_r = next_id s, description = descr,
              passed = Bool True, actual = a, expected = b, message = Null \<rparr>]
      \<and> failures (the_suite (TestSuite_assertArraysEqual a b descr s)) = failures s
      \<and> raised (TestSuite_assertArraysEqual a b descr s)
        = (if VERBOSE \<le> verbosity s
           then raises s (Call_testPassed (next_id s) descr) else None)"
    by (simp add: TestSuite_assertArraysEqual_def test_literal)
  have fail: "\<not> arraysEqual a b \<longrightarrow>
      failures (the_suite (TestSuite_assertArraysEqual a b descr s))
        = failures s @ [\<lparr> id_r = next_id s, description = descr,
              passed = Bool False, actual = a, expected = b,
              message = Str (js ''Arrays do not match'') \<rparr>]
      \<and> successes (the_suite (TestSuite_assertArraysEqual a b descr s)) = successes s
      \<and> raised (TestSuite_assertArraysEqual a b descr s)
        = (if QUIET \<le> verbosity s
           then raises s (Call_testFailed (next_id s) descr
             \<lparr> id_r = next_id s, description = descr,
               passed = Bool False, actual = a, expected = b,
               message = Str (js ''Arrays do not match'') \<rparr>) else None)"
    by (simp add: TestSuite_assertArraysEqual_def test_literal)
  have ex1: "arraysEqual (Arr 1 [Some (Num (Fin 1)), Some (Num (Fin 2)), Some (Num (Fin 3))])
        (Arr 2 [Some (Num (Fin 1)), Some (Num (Fin 2)), Some (Num (Fin 3))])"
    by (simp add: arraysEqual_def at_index_def)
  have ex2: "\<not> arraysEqual (Arr 1 [Some (Num (Fin 1)), Some (Num (Fin 2))])
        (Arr 2 [Some (Num (Fin 1)), Some (Num (Fin 2)), Some (Num (Fin 3))])"
    by (simp add: arraysEqual_def)
  have ex3: "\<not> arraysEqual (Arr 1 [Some (Num (Fin 1)), Some (Arr 3 [Some (Num (Fin 2))])])
        (Arr 2 [Some (Num (Fin 1)), Some (Arr 4 [Some (Num (Fin 2))])])"
    by (simp add: arraysEqual_def at_index_def)
  have ex4: "\<not> arraysEqual (Obj 1 []) (Arr 2 [])" "\<not> arraysEqual (Arr 1 []) (Obj 2 [])"
    "\<not> arraysEqual (Str []) (Arr 2 [])"
    by (simp_all add: arraysEqual_def)
  from arraysEqual_iff [of a b] pass fail ex1 ex2 ex3 ex4 show ?thesis
    by (intro conjI)
qed

theorem assertArraysEqual_shallow_witness:
  "arraysEqual (Arr 5 [Some (Str (js ''a'')), None]) (Arr 6 [Some (Str (js ''a'')), Some (Bool True)])
   \<and> map passed (successes (the_suite (TestSuite_assertArraysEqual
        (Arr 5 [Some (Str (js ''a'')), None]) (Arr 6 [Some (Str (js ''a'')), Some (Bool True)])
        (js ''d'') (TestSuite (js ''S'') None returning 0)))) = [Bool True]
   \<and> \<not> arraysEqual (Arr 5 [Some (Str (js ''a''))]) (Str (js ''a''))
   \<and> map message (failures (the_suite (TestSuite_assertArraysEqual
        (Arr 5 [Some (Str (js ''a''))]) (Str (js ''a'')) (js ''d'')
        (TestSuite (js ''S'') None returning 0)))) = [Str (js ''Arrays do not match'')]
   \<and> raised (TestSuite_assertArraysEqual
        (Arr 5 [Some (Str (js ''a''))]) (Str (js ''a'')) (js ''d'')
        (TestSuite (js ''S'') None returning 0)) = None"
proof -
  have a: "\<exists>p xs q ys. Arr 5 [Some (Str (js ''a'')), None] = Arr p xs
      \<and> Arr 6 [Some (Str (js ''a'')), Some (Bool True)] = Arr q ys \<and> length xs = length ys
      \<and> (\<forall>i < length xs. \<forall>el. xs ! i = Some el \<longrightarrow>
           strict_eq el (case ys ! i of Some v \<Rightarrow> v | None \<Rightarrow> Undefined))"
    by (simp add: less_Suc_eq)
  have b: "\<not> (\<exists>p xs q ys. Arr 5 [Some (Str (js ''a''))] = Arr p xs \<and> Str (js ''a'') = Arr q ys
      \<and> length xs = length ys
      \<and> (\<forall>i < length xs. \<forall>el. xs ! i = Some el \<longrightarrow>
           strict_eq el (case ys ! i of Some v \<Rightarrow> v | None \<Rightarrow> Undefined)))"
    by simp
  from a assertArraysEqual_shallow [of "Arr 5 [Some (Str (js ''a'')), None]"
      "Arr 6 [Some (Str (js ''a'')), Some (Bool True)]" "js ''d''"
      "TestSuite (js ''S'') None returning 0"]
  have a1: "arraysEqual (Arr 5 [Some (Str (js ''a'')), None])
      (Arr 6 [Some (Str (js ''a'')), Some (Bool True)])"
    by (elim conjE) (rule iffD2)
  from b assertArraysEqual_shallow [of "Arr 5 [Some (Str (js ''a''))]" "Str (js ''a'')" "js ''d''"
      "TestSuite (js ''S'') None returning 0"]
  have b1: "\<not> arraysEqual (Arr 5 [Some (Str (js ''a''))]) (Str (js ''a''))"
    by (elim conjE) simp
  from a1 b1
    assertArraysEqual_shallow [of "Arr 5 [Some (Str (js ''a'')), None]"
      "Arr 6 [Some (Str (js ''a'')), Some (Bool True)]" "js ''d''"
      "TestSuite (js ''S'') None returning 0"]
    assertArraysEqual_shallow [of "Arr 5 [Some (Str (js ''a''))]" "Str (js ''a'')" "js ''d''"
      "TestSuite (js ''S'') None returning 0"]
  show ?thesis
    by (simp add: TestSuite_def returning_def)
qed

section \<open>The pass rate\<close>

text \<open>
  The rounding of the double model: \<open>floor_log2\<close> is the binary exponent of its
  argument, and \<open>to_double\<close> moves a value by at most half a unit in the 53rd
  significant bit, and not at all when the value has 53 significant bits or fewer.
\<close>

lemma round_half_even_close: "\<bar>of_int (round_half_even r) - r\<bar> \<le> 1 / 2"
proof -
  have "of_int \<lfloor>r\<rfloor> \<le> r" "r < of_int \<lfloor>r\<rfloor> + 1"
    by linarith+
  then show ?thesis
    unfolding round_half_even_def Let_def
    by (simp add: abs_if not_less) linarith
qed

lemma bitlen_pow_bounds:
  assumes "0 < (a::int)"
  shows "(2::rat) powi (bitlen a - 1) \<le> of_int a" "of_int a < (2::rat) powi (bitlen a)"
proof -
  from bitlen_bounds [OF assms]
  have lo: "2 ^ nat (bitlen a - 1) \<le> a" and hi: "a < 2 ^ nat (bitlen a)"
    by simp_all
  have pos: "1 \<le> bitlen a"
    using assms by (simp add: bitlen_alt_def)
  have "(2::rat) powi (bitlen a - 1) = 2 ^ nat (bitlen a - 1)"
    using pos by (simp add: power_int_def)
  also have "\<dots> = of_int (2 ^ nat (bitlen a - 1))"
    by simp
  also have "\<dots> \<le> of_int a"
    using lo by (simp only: of_int_le_iff)
  finally show "(2::rat) powi (bitlen a - 1) \<le> of_int a" .
  have "(of_int a :: rat) < of_int (2 ^ nat (bitlen a))"
    using hi by (simp only: of_int_less_iff)
  also have "\<dots> = 2 powi (bitlen a)"
    using pos by (simp add: power_int_def)
  finally show "of_int a < (2::rat) powi (bitlen a)" .
qed

lemma floor_log2_bounds:
  assumes "0 < q"
  shows "2 powi (floor_log2 q) \<le> q" "q < 2 powi (floor_log2 q + 1)"
proof -
  obtain a b where ab: "quotient_of q = (a, b)"
    by (cases "quotient_of q")
  then have b: "0 < b" and q: "q = of_int a / of_int b"
    using quotient_of_denom_pos [OF ab] quotient_of_div [OF ab] by simp_all
  have a: "0 < a"
    using assms b q by (simp add: zero_less_divide_iff)
  let ?k = "bitlen a - bitlen b"
  note A = bitlen_pow_bounds [OF a] and B = bitlen_pow_bounds [OF b]
  have bpos: "(0::rat) < of_int b" using b by simp
  have upper: "q < 2 powi (?k + 1)"
  proof -
    have "q < 2 powi (bitlen a) / of_int b"
      unfolding q using A(2) bpos by (simp add: divide_strict_right_mono)
    also have "\<dots> \<le> 2 powi (bitlen a) / 2 powi (bitlen b - 1)"
      by (rule frac_le) (use B(1) in simp_all)
    also have "\<dots> = 2 powi (?k + 1)"
      by (simp add: power_int_diff power_int_add)
    finally show ?thesis .
  qed
  have lower: "2 powi (?k - 1) < q"
  proof -
    have "(2::rat) powi (?k - 1) = 2 powi (bitlen a - 1) / 2 powi (bitlen b)"
      by (simp add: power_int_diff power_int_add)
    also have "\<dots> \<le> of_int a / 2 powi (bitlen b)"
      using A(1) by (simp add: divide_right_mono)
    also have "\<dots> < of_int a / of_int b"
      by (rule frac_less2) (use B(2) a bpos in simp_all)
    finally show ?thesis by (simp add: q)
  qed
  show "2 powi (floor_log2 q) \<le> q"
    using lower by (auto simp: floor_log2_def ab Let_def)
  show "q < 2 powi (floor_log2 q + 1)"
    using upper by (auto simp: floor_log2_def ab Let_def)
qed

lemma to_double_close:
  "\<bar>to_double q - q\<bar> \<le> 2 powi (floor_log2 \<bar>q\<bar> - 53)"
proof (cases "q = 0")
  case True
  then show ?thesis by (simp add: to_double_def)
next
  case False
  let ?u = "(2::rat) powi (floor_log2 \<bar>q\<bar> - 52)"
  have u: "0 < ?u" by simp
  have "to_double q - q = (of_int (round_half_even (q / ?u)) - q / ?u) * ?u"
    using False by (simp add: to_double_def Let_def algebra_simps)
  then have "\<bar>to_double q - q\<bar> = \<bar>of_int (round_half_even (q / ?u)) - q / ?u\<bar> * ?u"
    using u by (simp add: abs_mult)
  also have "\<dots> \<le> 1 / 2 * ?u"
    using round_half_even_close [of "q / ?u"] u by (simp add: mult_right_mono)
  also have "1 / 2 * ?u = 2 powi (floor_log2 \<bar>q\<bar> - 53)"
    by (simp add: power_int_diff)
  finally show ?thesis .
qed

lemma show_nat_small: "n < 10 \<Longrightarrow> show_nat n = [digit n]"
  by (simp add: show_nat.simps)

lemma show_nat_step: "10 \<le> n \<Longrightarrow> show_nat n = show_nat (n div 10) @ [digit (n mod 10)]"
  by (subst show_nat.simps) simp

lemma show_nat_two: "10 \<le> n \<Longrightarrow> n < 100 \<Longrightarrow> show_nat n = [digit (n div 10), digit (n mod 10)]"
  by (simp add: show_nat_step show_nat_small)

lemma show_nat_hundreds:
  assumes "100 \<le> n"
  shows "show_nat n = show_nat (n div 100) @ [digit (n div 10 mod 10), digit (n mod 10)]"
proof -
  have "10 \<le> n div 10" using assms by simp
  then have "show_nat (n div 10) = show_nat (n div 10 div 10) @ [digit (n div 10 mod 10)]"
    by (rule show_nat_step)
  moreover have "n div 10 div 10 = n div 100"
    by (simp add: div_mult2_eq)
  moreover have "show_nat n = show_nat (n div 10) @ [digit (n mod 10)]"
    using assms by (simp add: show_nat_step)
  ultimately show ?thesis by simp
qed

lemma show_nat_nonempty: "show_nat n \<noteq> []"
  by (subst show_nat.simps) simp

lemma round_half_even_nonneg: "0 \<le> r \<Longrightarrow> 0 \<le> round_half_even r"
  by (simp add: round_half_even_def Let_def)

lemma to_double_nonneg:
  assumes "0 \<le> q"
  shows "0 \<le> to_double q"
proof (cases "q = 0")
  case True
  then show ?thesis by (simp add: to_double_def)
next
  case False
  have pos: "0 < (2::rat) powi k" for k
    by simp
  have "0 \<le> q / 2 powi (floor_log2 \<bar>q\<bar> - 52)"
    using assms pos [of "floor_log2 \<bar>q\<bar> - 52"] by simp
  then have "0 \<le> round_half_even (q / 2 powi (floor_log2 \<bar>q\<bar> - 52))"
    by (rule round_half_even_nonneg)
  then show ?thesis
    using False pos [of "floor_log2 \<bar>q\<bar> - 52"]
    by (simp add: to_double_def Let_def)
qed

lemma toFixed_two:
  assumes "0 \<le> x"
  shows "toFixed x 2 =
     (let n = nat \<lfloor>x * 100 + 1 / 2\<rfloor>
      in show_nat (n div 100) @ js ''.'' @ [digit (n div 10 mod 10), digit (n mod 10)])"
proof -
  define n where "n = nat \<lfloor>x * 100 + 1 / 2\<rfloor>"
  have unfold: "toFixed x 2 =
      (let m = (if length (show_nat n) \<le> 2
                then replicate (3 - length (show_nat n)) (digit 0) @ show_nat n
                else show_nat n)
       in take (length m - 2) m @ js ''.'' @ drop (length m - 2) m)"
    using assms by (simp add: toFixed_def n_def Let_def)
  consider "n < 10" | "10 \<le> n" "n < 100" | "100 \<le> n" by linarith
  then have "toFixed x 2 = show_nat (n div 100) @ js ''.'' @ [digit (n div 10 mod 10), digit (n mod 10)]"
  proof cases
    case 1
    then show ?thesis
      by (simp add: unfold show_nat_small numeral_3_eq_3)
  next
    case 2
    then show ?thesis
      by (simp add: unfold show_nat_two show_nat_small)
  next
    case 3
    then show ?thesis
      by (simp add: unfold show_nat_hundreds show_nat_nonempty)
  qed
  then show ?thesis
    by (simp add: n_def Let_def)
qed

lemma summary_stats_at_normal:
  assumes "NORMAL \<le> verbosity s"
  shows "\<exists>calls. TestSuite_summary now s =
     (length (failures s) = 0,
      s\<lparr>reporter := reporter s @
        Call_summary \<lparr> total_n = length (successes s) + length (failures s),
          passed_n = length (successes s),
          failed = length (failures s),
          passRate = (if 0 < length (successes s) + length (failures s)
            then Str (toFixed (double_mul (double_div (of_nat (length (successes s)))
                   (of_nat (length (successes s) + length (failures s)))) 100) 2)
            else Num (Fin 0)),
          duration = now - startTime s \<rparr> # calls\<rparr>)"
  using assms
  by (auto simp: TestSuite_summary_def Let_def report_def intro: exI [of _ "[]"])

lemma percentage_nonneg:
  "0 \<le> double_mul (double_div (of_nat p) (of_nat t)) 100"
  by (simp add: double_mul_def double_div_def to_double_nonneg)

lemma round_half_even_int: "round_half_even (of_int z) = z"
  by (simp add: round_half_even_def)

lemma to_double_exact:
  assumes "q / 2 powi (floor_log2 \<bar>q\<bar> - 52) = of_int z"
  shows "to_double q = q"
proof (cases "q = 0")
  case True
  then show ?thesis by (simp add: to_double_def)
next
  case False
  have "to_double q = of_int (round_half_even (of_int z)) * 2 powi (floor_log2 \<bar>q\<bar> - 52)"
    using False assms by (simp add: to_double_def Let_def)
  also have "\<dots> = q / 2 powi (floor_log2 \<bar>q\<bar> - 52) * 2 powi (floor_log2 \<bar>q\<bar> - 52)"
    by (simp only: round_half_even_int assms)
  also have "\<dots> = q"
    by simp
  finally show ?thesis .
qed

lemma floor_log2_half: "floor_log2 (1 / 2) = - 1"
proof -
  have "quotient_of (1 / 2) = (1, 2)"
    using quotient_of_Fract [of 1 2] by (simp add: Fract_of_int_quotient)
  then show ?thesis
    by (simp add: floor_log2_def compute_bitlen)
qed

lemma floor_log2_fifty: "floor_log2 50 = 5"
  by (simp add: floor_log2_def compute_bitlen)

lemma half_exact: "double_div 1 2 = 1 / 2"
proof -
  have "(1 / 2 :: rat) / 2 powi (floor_log2 \<bar>1 / 2\<bar> - 52) = of_int (2 ^ 52)"
    by (simp add: floor_log2_half power_int_minus)
  from to_double_exact [OF this] show ?thesis
    by (simp add: double_div_def)
qed

lemma fifty_exact: "double_mul (1 / 2) 100 = 50"
proof -
  have "(50 :: rat) / 2 powi (floor_log2 \<bar>50\<bar> - 52) = of_int (50 * 2 ^ 47)"
    by (simp add: floor_log2_fifty power_int_minus)
  from to_double_exact [OF this] show ?thesis
    by (simp add: double_mul_def)
qed

lemma show_nat_50: "show_nat 50 = js ''50''"
  by (simp add: show_nat_two digit_def js_def)

lemma half_rate: "toFixed (double_mul (double_div 1 2) 100) 2 = js ''50.00''"
proof -
  have "\<lfloor>(10001 :: rat) / 2\<rfloor> = 5000"
    by (rule floor_unique) simp_all
  then have "toFixed 50 2 = js ''50.00''"
    using toFixed_two [of 50] by (simp add: show_nat_50 digit_def js_def Let_def)
  then show ?thesis
    by (simp only: half_exact fifty_exact)
qed

lemma scenario_suite:
  "the_suite (run
      [Op_test (js ''t1'') (Returns (Bool True)),
       Op_test (js ''t2'') (Returns (Obj 0 [(js ''passed'', Bool False),
          (js ''actual'', Num (Fin 1)), (js ''expected'', Num (Fin 2))]))]
      (TestSuite (js ''S'') (Some VERBOSE) returning 0))
   = \<lparr> name = js ''S'', verbosity = VERBOSE, testNumber = 2, sectionNumber = 0,
       failures = [\<lparr> id_r = js ''0.2'', description = js ''t2'', passed = Bool False,
          actual = Num (Fin 1), expected = Num (Fin 2), message = Undefined \<rparr>],
       successes = [\<lparr> id_r = js ''0.1'', description = js ''t1'', passed = Bool True,
          actual = Null, expected = Null, message = Null \<rparr>],
       startTime = 0,
       reporter = [Call_testPassed (js ''0.1'') (js ''t1''),
          Call_testFailed (js ''0.2'') (js ''t2'')
            \<lparr> id_r = js ''0.2'', description = js ''t2'', passed = Bool False,
              actual = Num (Fin 1), expected = Num (Fin 2), message = Undefined \<rparr>],
       raises = returning \<rparr>"
  by (simp add: the_suite_def TestSuite_def TestSuite_test_def settle_def coalesce_def
      forward_def returning_def report_def VERBOSITY_LEVELS show_nat_small digit_def js_def
      Let_def)

text \<open>
  \<open>summary()\<close> on a suite that ran no test: the pass rate handed to the reporter is the
  number 0, not a string with two decimals.
\<close>

theorem summary_of_empty_suite:
  "reporter (snd (TestSuite_summary 5 (TestSuite (js ''S'') None returning 0)))
     = [Call_summary \<lparr> total_n = 0, passed_n = 0, failed = 0, passRate = Num (Fin 0),
          duration = 5 \<rparr>]"
  by (simp add: TestSuite_summary_def TestSuite_def VERBOSITY_LEVELS report_def)

text \<open>
  Claim C6. (as amended) At verbosity NORMAL or above \<open>summary()\<close> hands the reporter a
  Stats object with \<open>total = passed + failed\<close>, \<open>passed\<close> and \<open>failed\<close> the lengths of
  the two accumulators, and returns whether \<open>failed\<close> is 0. When \<open>total\<close> is positive,
  \<open>passRate\<close> is the string \<open>toFixed(2)\<close> gives for \<open>(passed / total) * 100\<close>: that
  double rounded to the nearest hundredth, written with exactly two decimals. When
  \<open>total\<close> is 0, \<open>passRate\<close> is the number 0. After one passing and one failing test
  \<open>summary()\<close> reports total 2, passed 1, failed 1, passRate \<open>"50.00"\<close> and returns
  false.
\<close>

theorem summary_stats:
  "(NORMAL \<le> verbosity s \<longrightarrow>
      (\<exists>st calls.
         snd (TestSuite_summary now s) = s\<lparr>reporter := reporter s @ Call_summary st # calls\<rparr>
         \<and> fst (TestSuite_summary now s) = (failed st = 0)
         \<and> total_n st = passed_n st + failed st
         \<and> passed_n st = length (successes s)
         \<and> failed st = length (failures s)
         \<and> duration st = now - startTime s
         \<and> (0 < total_n st \<longrightarrow>
              passRate st = Str (toFixed (double_mul
                (double_div (of_nat (passed_n st)) (of_nat (total_n st))) 100) 2)
              \<and> toFixed (double_mul
                (double_div (of_nat (passed_n st)) (of_nat (total_n st))) 100) 2
                = (let n = nat \<lfloor>double_mul (double_div (of_nat (passed_n st))
                             (of_nat (total_n st))) 100 * 100 + 1 / 2\<rfloor>
                   in show_nat (n div 100) @ js ''.''
                        @ [digit (n div 10 mod 10), digit (n mod 10)]))
         \<and> (total_n st = 0 \<longrightarrow> passRate st = Num (Fin 0))))
   \<and> TestSuite_summary 7 (the_suite (run
        [Op_test (js ''t1'') (Returns (Bool True)),
         Op_test (js ''t2'') (Returns (Obj 0 [(js ''passed'', Bool False),
            (js ''actual'', Num (Fin 1)), (js ''expected'', Num (Fin 2))]))]
        (TestSuite (js ''S'') (Some VERBOSE) returning 0)))
      = (False,
         (the_suite (run
            [Op_test (js ''t1'') (Returns (Bool True)),
             Op_test (js ''t2'') (Returns (Obj 0 [(js ''passed'', Bool False),
                (js ''actual'', Num (Fin 1)), (js ''expected'', Num (Fin 2))]))]
            (TestSuite (js ''S'') (Some VERBOSE) returning 0)))
         \<lparr>reporter :=
            [Call_testPassed (js ''0.1'') (js ''t1''),
             Call_testFailed (js ''0.2'') (js ''t2'')
               \<lparr> id_r = js ''0.2'', description = js ''t2'', passed = Bool False,
                 actual = Num (Fin 1), expected = Num (Fin 2), message = Undefined \<rparr>,
             Call_summary \<lparr> total_n = 2, passed_n = 1, failed = 1,
               passRate = Str (js ''50.00''), duration = 7 \<rparr>,
             Call_failureDetails
               [\<lparr> id_r = js ''0.2'', description = js ''t2'', passed = Bool False,
                  actual = Num (Fin 1), expected = Num (Fin 2), message = Undefined \<rparr>]]\<rparr>)"
proof -
  have general: "\<exists>st calls.
         snd (TestSuite_summary now s) = s\<lparr>reporter := reporter s @ Call_summary st # calls\<rparr>
         \<and> fst (TestSuite_summary now s) = (failed st = 0)
         \<and> total_n st = passed_n st + failed st
         \<and> passed_n st = length (successes s)
         \<and> failed st = length (failures s)
         \<and> duration st = now - startTime s
         \<and> (0 < total_n st \<longrightarrow>
              passRate st = Str (toFixed (double_mul
                (double_div (of_nat (passed_n st)) (of_nat (total_n st))) 100) 2)
              \<and> toFixed (double_mul
                (double_div (of_nat (passed_n st)) (of_nat (total_n st))) 100) 2
                = (let n = nat \<lfloor>double_mul (double_div (of_nat (passed_n st))
                             (of_nat (total_n st))) 100 * 100 + 1 / 2\<rfloor>
                   in show_nat (n div 100) @ js ''.''
                        @ [digit (n div 10 mod 10), digit (n mod 10)]))
         \<and> (total_n st = 0 \<longrightarrow> passRate st = Num (Fin 0))"
    if v: "NORMAL \<le> verbosity s"
  proof -
    let ?st = "\<lparr> total_n = length (successes s) + length (failures s),
          passed_n = length (successes s),
          failed = length (failures s),
          passRate = (if 0 < length (successes s) + length (failures s)
            then Str (toFixed (double_mul (double_div (of_nat (length (successes s)))
                   (of_nat (length (successes s) + length (failures s)))) 100) 2)
            else Num (Fin 0)),
          duration = now - startTime s \<rparr>"
    from summary_stats_at_normal [OF v, of now] obtain calls where
      eq: "TestSuite_summary now s =
        (length (failures s) = 0, s\<lparr>reporter := reporter s @ Call_summary ?st # calls\<rparr>)"
      by blast
    have fmt: "toFixed (double_mul (double_div (of_nat (passed_n ?st)) (of_nat (total_n ?st))) 100) 2
        = (let n = nat \<lfloor>double_mul (double_div (of_nat (passed_n ?st))
                             (of_nat (total_n ?st))) 100 * 100 + 1 / 2\<rfloor>
           in show_nat (n div 100) @ js ''.'' @ [digit (n div 10 mod 10), digit (n mod 10)])"
      by (rule toFixed_two) (rule percentage_nonneg)
    show ?thesis
      apply (rule exI [of _ ?st])
      apply (rule exI [of _ calls])
      apply (intro conjI)
             apply (simp add: eq)
            apply (simp add: eq)
           apply simp
          apply simp
         apply simp
        apply simp
       apply (rule impI, rule conjI, simp, rule fmt)
      apply simp
      done
  qed
  have scenario: "TestSuite_summary 7 (the_suite (run
        [Op_test (js ''t1'') (Returns (Bool True)),
         Op_test (js ''t2'') (Returns (Obj 0 [(js ''passed'', Bool False),
            (js ''actual'', Num (Fin 1)), (js ''expected'', Num (Fin 2))]))]
        (TestSuite (js ''S'') (Some VERBOSE) returning 0)))
      = (False,
         (the_suite (run
            [Op_test (js ''t1'') (Returns (Bool True)),
             Op_test (js ''t2'') (Returns (Obj 0 [(js ''passed'', Bool False),
                (js ''actual'', Num (Fin 1)), (js ''expected'', Num (Fin 2))]))]
            (TestSuite (js ''S'') (Some VERBOSE) returning 0)))
         \<lparr>reporter :=
            [Call_testPassed (js ''0.1'') (js ''t1''),
             Call_testFailed (js ''0.2'') (js ''t2'')
               \<lparr> id_r = js ''0.2'', description = js ''t2'', passed = Bool False,
                 actual = Num (Fin 1), expected = Num (Fin 2), message = Undefined \<rparr>,
             Call_summary \<lparr> total_n = 2, passed_n = 1, failed = 1,
               passRate = Str (js ''50.00''), duration = 7 \<rparr>,
             Call_failureDetails
               [\<lparr> id_r = js ''0.2'', description = js ''t2'', passed = Bool False,
                  actual = Num (Fin 1), expected = Num (Fin 2), message = Undefined \<rparr>]]\<rparr>)"
    unfolding scenario_suite
    by (simp add: TestSuite_summary_def VERBOSITY_LEVELS report_def half_rate)
  from general scenario show ?thesis
    by blast
qed

theorem summary_stats_witness:
  "NORMAL \<le> verbosity (the_suite (run
        [Op_test (js ''t1'') (Returns (Bool True)),
         Op_test (js ''t2'') (Returns (Obj 0 [(js ''passed'', Bool False),
            (js ''actual'', Num (Fin 1)), (js ''expected'', Num (Fin 2))]))]
        (TestSuite (js ''S'') (Some VERBOSE) returning 0)))
   \<and> (\<exists>st calls. snd (TestSuite_summary 7 (the_suite (run
        [Op_test (js ''t1'') (Returns (Bool True)),
         Op_test (js ''t2'') (Returns (Obj 0 [(js ''passed'', Bool False),
            (js ''actual'', Num (Fin 1)), (js ''expected'', Num (Fin 2))]))]
        (TestSuite (js ''S'') (Some VERBOSE) returning 0))))
        = (the_suite (run
        [Op_test (js ''t1'') (Returns (Bool True)),
         Op_test (js ''t2'') (Returns (Obj 0 [(js ''passed'', Bool False),
            (js ''actual'', Num (Fin 1)), (js ''expected'', Num (Fin 2))]))]
        (TestSuite (js ''S'') (Some VERBOSE) returning 0)))
          \<lparr>reporter := reporter (the_suite (run
        [Op_test (js ''t1'') (Returns (Bool True)),
         Op_test (js ''t2'') (Returns (Obj 0 [(js ''passed'', Bool False),
            (js ''actual'', Num (Fin 1)), (js ''expected'', Num (Fin 2))]))]
        (TestSuite (js ''S'') (Some VERBOSE) returning 0))) @ Call_summary st # calls\<rparr>
      \<and> 0 < total_n st \<and> total_n st = 2 \<and> passRate st = Str (js ''50.00''))
   \<and> NORMAL \<le> verbosity (TestSuite (js ''S'') None returning 0)
   \<and> (\<exists>st calls. snd (TestSuite_summary 5 (TestSuite (js ''S'') None returning 0))
        = (TestSuite (js ''S'') None returning 0)
            \<lparr>reporter := reporter (TestSuite (js ''S'') None returning 0) @ Call_summary st # calls\<rparr>
      \<and> total_n st = 0 \<and> passRate st = Num (Fin 0))"
proof -
  let ?sc = "the_suite (run
        [Op_test (js ''t1'') (Returns (Bool True)),
         Op_test (js ''t2'') (Returns (Obj 0 [(js ''passed'', Bool False),
            (js ''actual'', Num (Fin 1)), (js ''expected'', Num (Fin 2))]))]
        (TestSuite (js ''S'') (Some VERBOSE) returning 0))"
  let ?s0 = "TestSuite (js ''S'') None returning 0"
  have v: "NORMAL \<le> verbosity ?sc"
    unfolding scenario_suite by (simp add: VERBOSITY_LEVELS)
  have v0: "NORMAL \<le> verbosity ?s0"
    by (simp add: TestSuite_def VERBOSITY_LEVELS)
  from summary_stats [of ?sc 7, THEN conjunct1, rule_format, OF v] obtain st calls where
    st: "snd (TestSuite_summary 7 ?sc) = ?sc\<lparr>reporter := reporter ?sc @ Call_summary st # calls\<rparr>"
    and tot: "total_n st = passed_n st + failed st"
    and pas: "passed_n st = length (successes ?sc)"
    and fai: "failed st = length (failures ?sc)"
    and rate: "0 < total_n st \<longrightarrow>
       passRate st = Str (toFixed (double_mul
                (double_div (of_nat (passed_n st)) (of_nat (total_n st))) 100) 2)
       \<and> toFixed (double_mul
                (double_div (of_nat (passed_n st)) (of_nat (total_n st))) 100) 2
                = (let n = nat \<lfloor>double_mul (double_div (of_nat (passed_n st))
                             (of_nat (total_n st))) 100 * 100 + 1 / 2\<rfloor>
                   in show_nat (n div 100) @ js ''.''
                        @ [digit (n div 10 mod 10), digit (n mod 10)])"
    by (elim exE conjE) (rule that)
  have one: "passed_n st = 1" "failed st = 1"
    using pas fai unfolding scenario_suite by simp_all
  with tot have two: "total_n st = 2"
    by simp
  with rate one have "passRate st = Str (js ''50.00'')"
    by (simp add: half_rate)
  with st two have a: "\<exists>st calls. snd (TestSuite_summary 7 ?sc)
        = ?sc\<lparr>reporter := reporter ?sc @ Call_summary st # calls\<rparr>
      \<and> 0 < total_n st \<and> total_n st = 2 \<and> passRate st = Str (js ''50.00'')"
    by (intro exI [of _ st] exI [of _ calls]) simp
  from summary_stats [of ?s0 5, THEN conjunct1, rule_format, OF v0] obtain st0 calls0 where
    st0: "snd (TestSuite_summary 5 ?s0) = ?s0\<lparr>reporter := reporter ?s0 @ Call_summary st0 # calls0\<rparr>"
    and tot0: "total_n st0 = passed_n st0 + failed st0"
    and pas0: "passed_n st0 = length (successes ?s0)"
    and fai0: "failed st0 = length (failures ?s0)"
    and rate0: "total_n st0 = 0 \<longrightarrow> passRate st0 = Num (Fin 0)"
    by (elim exE conjE) (rule that)
  have zero: "total_n st0 = 0"
    using tot0 pas0 fai0 by (simp add: TestSuite_def)
  with rate0 have "passRate st0 = Num (Fin 0)"
    by simp
  with st0 zero have b: "\<exists>st calls. snd (TestSuite_summary 5 ?s0)
        = ?s0\<lparr>reporter := reporter ?s0 @ Call_summary st # calls\<rparr>
      \<and> total_n st = 0 \<and> passRate st = Num (Fin 0)"
    by (intro exI [of _ st0] exI [of _ calls0]) simp
  from v a v0 b show ?thesis
    by (intro conjI)
qed

section \<open>Differential analysis\<close>

lemma split_on_nonempty: "split_on c s \<noteq> []"
  by (induction s) (auto split: list.splits)

lemma join_split: "join_with c (split_on c s) = s"
proof (induction s)
  case Nil
  then show ?case by simp
next
  case (Cons x xs)
  show ?case
  proof (cases "x = c")
    case True
    with Cons split_on_nonempty [of c xs] show ?thesis
      by (cases "split_on c xs") simp_all
  next
    case False
    obtain l ls where sp: "split_on c xs = l # ls"
      using split_on_nonempty [of c xs] by (cases "split_on c xs") auto
    with Cons False show ?thesis
      by (cases ls) simp_all
  qed
qed

lemma with_default_string:
  "label \<noteq> LNull \<Longrightarrow> \<exists>l. with_default d label = LStr l"
  by (cases label) (simp_all add: with_default_def)

lemma marker_distinct:
  "js ''  [NO VARIANCE DETECTED]'' \<noteq> []"
  "js ''  [NO VARIANCE DETECTED]'' \<noteq> BOX_DOWN_RIGHT # t"
  "js ''  [NO VARIANCE DETECTED]'' \<noteq> BOX_UP_RIGHT # t"
  "js ''  [NO VARIANCE DETECTED]'' \<noteq> js ''  - '' @ line"
  "js ''  [NO VARIANCE DETECTED]'' \<noteq> js ''  + '' @ line"
  by (simp_all add: js_def BOX_DOWN_RIGHT_def BOX_UP_RIGHT_def)

lemma Reporter_diff_shape:
  assumes "with_default (js ''DIFFERENTIAL ANALYSIS'') label = LStr l"
  shows "Reporter_diff J S expd actl label =
     Inr ([[], BOX_DOWN_RIGHT # BOX_HORIZONTAL # js ''[ '' @ l @ js '' ]''
             @ repeat [BOX_HORIZONTAL] (nat (max 0 (74 - int (length l)))), []]
          @ (if stringify J S expd = stringify J S actl then [no_variance Reporter]
             else [js ''  EXPECTED STATE:'']
               @ map (expected_line Reporter) (split_on NEWLINE (stringify J S expd))
               @ [[], js ''  ACTUAL STATE:'']
               @ map (actual_line Reporter) (split_on NEWLINE (stringify J S actl)))
          @ [[], BOX_UP_RIGHT # repeat [BOX_HORIZONTAL] 79, []])"
  using assms by (simp add: Reporter_diff_def Let_def)

lemma TerminalReporter_diff_shape:
  assumes "with_default (js ''DIFFERENTIAL ANALYSIS'') label = LStr l"
  shows "TerminalReporter_diff J S expd actl label =
     Inr ([[], YELLOW @ BOX_DOWN_RIGHT # BOX_HORIZONTAL # js ''[ '' @ BOLD @ l @ RESET @ YELLOW
             @ js '' ]'' @ repeat [BOX_HORIZONTAL] (nat (max 0 (74 - int (length l)))) @ RESET, []]
          @ (if stringify J S expd = stringify J S actl then [no_variance TerminalReporter]
             else [js ''  '' @ CYAN @ js ''EXPECTED STATE:'' @ RESET]
               @ map (expected_line TerminalReporter) (split_on NEWLINE (stringify J S expd))
               @ [[], js ''  '' @ CYAN @ js ''ACTUAL STATE:'' @ RESET]
               @ map (actual_line TerminalReporter) (split_on NEWLINE (stringify J S actl)))
          @ [[], YELLOW @ BOX_UP_RIGHT # repeat [BOX_HORIZONTAL] 79 @ RESET, []])"
  using assms by (simp add: TerminalReporter_diff_def Let_def)

lemma MarkdownReporter_diff_shape:
  "MarkdownReporter_diff J S expd actl label =
     Inr ([[], js ''### '' @ label_string (with_default (js ''DIFFERENTIAL ANALYSIS'') label), []]
          @ (if stringify J S expd = stringify J S actl then [no_variance MarkdownReporter]
             else [js ''**Expected State:**'', [], js ''```diff'']
               @ map (expected_line MarkdownReporter) (split_on NEWLINE (stringify J S expd))
               @ [js ''```'', [], js ''**Actual State:**'', [], js ''```diff'']
               @ map (actual_line MarkdownReporter) (split_on NEWLINE (stringify J S actl))
               @ [js ''```''])
          @ [[]])"
  by (simp add: MarkdownReporter_diff_def Let_def)

text \<open>The lines around the body, for a label that is a string or left out.\<close>

lemma diff_frame:
  assumes "label \<noteq> LNull"
  shows "\<exists>top bottom differing_top differing_middle differing_bottom.
     (\<forall>J S expd actl. diff k J S expd actl label =
        Inr (top
          @ (if stringify J S expd = stringify J S actl then [no_variance k]
             else differing_top
               @ map (expected_line k) (split_on NEWLINE (stringify J S expd))
               @ differing_middle
               @ map (actual_line k) (split_on NEWLINE (stringify J S actl))
               @ differing_bottom)
          @ bottom))
     \<and> no_variance k \<notin> set top \<and> no_variance k \<notin> set bottom
     \<and> (\<forall>line. expected_line k line \<notin> set top \<union> set bottom \<union> {no_variance k})
     \<and> (\<forall>line. actual_line k line \<notin> set top \<union> set bottom \<union> {no_variance k})"
proof -
  from with_default_string [OF assms] obtain l
    where l: "with_default (js ''DIFFERENTIAL ANALYSIS'') label = LStr l"
    by blast
  show ?thesis
  proof (cases k)
    case Reporter
    show ?thesis
      unfolding Reporter diff.simps
      apply (rule exI [of _ "[[], BOX_DOWN_RIGHT # BOX_HORIZONTAL # js ''[ '' @ l @ js '' ]''
             @ repeat [BOX_HORIZONTAL] (nat (max 0 (74 - int (length l)))), []]"])
      apply (rule exI [of _ "[[], BOX_UP_RIGHT # repeat [BOX_HORIZONTAL] 79, []]"])
      apply (rule exI [of _ "[js ''  EXPECTED STATE:'']"])
      apply (rule exI [of _ "[[], js ''  ACTUAL STATE:'']"])
      apply (rule exI [of _ "[]"])
      apply (simp add: Reporter_diff_shape [OF l])
      apply (simp add: js_def BOX_DOWN_RIGHT_def BOX_UP_RIGHT_def)
      done
  next
    case TerminalReporter
    show ?thesis
      unfolding TerminalReporter diff.simps
      apply (rule exI [of _ "[[], YELLOW @ BOX_DOWN_RIGHT # BOX_HORIZONTAL # js ''[ '' @ BOLD @ l
             @ RESET @ YELLOW @ js '' ]''
             @ repeat [BOX_HORIZONTAL] (nat (max 0 (74 - int (length l)))) @ RESET, []]"])
      apply (rule exI [of _ "[[], YELLOW @ BOX_UP_RIGHT # repeat [BOX_HORIZONTAL] 79 @ RESET, []]"])
      apply (rule exI [of _ "[js ''  '' @ CYAN @ js ''EXPECTED STATE:'' @ RESET]"])
      apply (rule exI [of _ "[[], js ''  '' @ CYAN @ js ''ACTUAL STATE:'' @ RESET]"])
      apply (rule exI [of _ "[]"])
      apply (simp add: TerminalReporter_diff_shape [OF l])
      apply (simp add: js_def YELLOW_def GREEN_def RED_def RESET_def ESC_def)
      done
  next
    case MarkdownReporter
    show ?thesis
      unfolding MarkdownReporter diff.simps
      apply (rule exI [of _ "[[], js ''### '' @ l, []]"])
      apply (rule exI [of _ "[[]]"])
      apply (rule exI [of _ "[js ''**Expected State:**'', [], js ''```diff'']"])
      apply (rule exI [of _ "[js ''```'', [], js ''**Actual State:**'', [], js ''```diff'']"])
      apply (rule exI [of _ "[js ''```'']"])
      apply (simp add: MarkdownReporter_diff_shape l)
      apply (simp add: js_def)
      done
  qed
qed

lemma diff_null_label_raises:
  "Reporter_diff J S expd actl LNull = Inl (TypeError, [[]])"
  "TerminalReporter_diff J S expd actl LNull = Inl (TypeError, [[]])"
  by (simp_all add: Reporter_diff_def TerminalReporter_diff_def with_default_def)

text \<open>
  For a label that is a string or left out, each reporter's \<open>diff\<close> writes a frame that
  depends on the label only, and between its two parts: when the two serialized renderings
  are the same string, the no-variance marker, once, and no line of either rendering; when
  they differ, every line of the expected rendering and then every line of the actual
  rendering, each in its line format.
\<close>

lemma diff_with_label:
  assumes "label \<noteq> LNull"
  shows "\<exists>top bottom differing_top differing_middle differing_bottom.
        (\<forall>J S expd actl.
           (stringify J S expd = stringify J S actl \<longrightarrow>
              diff k J S expd actl label = Inr (top @ [no_variance k] @ bottom))
           \<and> (stringify J S expd \<noteq> stringify J S actl \<longrightarrow>
              diff k J S expd actl label =
                Inr (top @ differing_top
                  @ map (expected_line k) (split_on NEWLINE (stringify J S expd))
                  @ differing_middle
                  @ map (actual_line k) (split_on NEWLINE (stringify J S actl))
                  @ differing_bottom @ bottom))
           \<and> diff k J S expd expd label = Inr (top @ [no_variance k] @ bottom))
        \<and> no_variance k \<notin> set top \<and> no_variance k \<notin> set bottom
        \<and> (\<forall>line. expected_line k line \<notin> set top \<union> set bottom \<union> {no_variance k})
        \<and> (\<forall>line. actual_line k line \<notin> set top \<union> set bottom \<union> {no_variance k})"
proof -
  from diff_frame [OF assms, of k]
  obtain top bottom differing_top differing_middle differing_bottom where
    shape: "\<And>J S expd actl. diff k J S expd actl label =
      Inr (top
        @ (if stringify J S expd = stringify J S actl then [no_variance k]
           else differing_top
             @ map (expected_line k) (split_on NEWLINE (stringify J S expd))
             @ differing_middle
             @ map (actual_line k) (split_on NEWLINE (stringify J S actl))
             @ differing_bottom)
        @ bottom)"
    and rest: "no_variance k \<notin> set top \<and> no_variance k \<notin> set bottom
      \<and> (\<forall>line. expected_line k line \<notin> set top \<union> set bottom \<union> {no_variance k})
      \<and> (\<forall>line. actual_line k line \<notin> set top \<union> set bottom \<union> {no_variance k})"
    by blast
  have "(stringify J S expd = stringify J S actl \<longrightarrow>
            diff k J S expd actl label = Inr (top @ [no_variance k] @ bottom))
         \<and> (stringify J S expd \<noteq> stringify J S actl \<longrightarrow>
            diff k J S expd actl label =
              Inr (top @ differing_top
                @ map (expected_line k) (split_on NEWLINE (stringify J S expd))
                @ differing_middle
                @ map (actual_line k) (split_on NEWLINE (stringify J S actl))
                @ differing_bottom @ bottom))
         \<and> diff k J S expd expd label = Inr (top @ [no_variance k] @ bottom)"
    for J S expd actl
    by (simp add: shape)
  with rest show ?thesis by blast
qed

text \<open>
  Claim C7. \<open>diff(v, v, label)\<close> does not always render the no-variance marker: the
  suite's \<open>diff\<close> turns a label that was left out into \<open>null\<close>, which the parameter
  default of the reporter's \<open>diff\<close> does not replace, and the plain and the terminal
  reporter then raise a TypeError at \<open>label.length\<close> after one empty line, whatever the
  two values are. The suite's \<open>diff(v, v)\<close> at the default verbosity raises with it, also
  with the reporter the default format selects.
\<close>

theorem diff_without_label_raises:
  "diff Reporter J S expd actl LNull = Inl (TypeError, [[]])
   \<and> diff TerminalReporter J S expd actl LNull = Inl (TypeError, [[]])
   \<and> no_variance Reporter \<notin> set (written (diff Reporter J S v v LNull))
   \<and> no_variance TerminalReporter \<notin> set (written (diff TerminalReporter J S v v LNull))
   \<and> reporter (the_suite (TestSuite_diff v v LUndefined
        (TestSuite nm None (answering_diff Reporter J S) now))) = [Call_diff v v LNull]
   \<and> raised (TestSuite_diff v v LUndefined
        (TestSuite nm None (answering_diff Reporter J S) now)) = Some TypeError
   \<and> raised (TestSuite_diff v v LUndefined
        (TestSuite nm None (answering_diff (createReporter (js ''terminal'')) J S) now))
       = Some TypeError"
proof -
  have r: "Reporter_diff J S expd actl LNull = Inl (TypeError, [[]])" for expd actl
    by (simp add: Reporter_diff_def with_default_def)
  have t: "TerminalReporter_diff J S expd actl LNull = Inl (TypeError, [[]])" for expd actl
    by (simp add: TerminalReporter_diff_def with_default_def)
  have c: "createReporter (js ''terminal'') = TerminalReporter"
    by (simp add: createReporter_def js_def)
  have v: "VERBOSE \<le> verbosity (TestSuite nm None rep now)" for rep
    by (simp add: TestSuite_def)
  have e: "the_suite (TestSuite_diff v v LUndefined (TestSuite nm None rep now))
         = report (Call_diff v v LNull) (TestSuite nm None rep now)"
    and f: "raised (TestSuite_diff v v LUndefined (TestSuite nm None rep now))
         = rep (Call_diff v v LNull)" for rep
    using v [of rep]
    by (simp_all add: TestSuite_diff_def default_null_def forward_cases)
      (simp add: TestSuite_def)
  show ?thesis
    unfolding e f c
    by (simp add: r t written_def report_def TestSuite_def answering_diff_def outcome_simps
        js_def)
qed

end
